theory Spec2Isabelle
  imports
    Complex_Main
    "HOL-Library.Char_ord"
    "HOL-Library.List_Lexorder"
    "HOL-Library.Multiset"
begin

chapter \<open>The Texas tax-sale scrapers: an embedding of the scripts and their properties\<close>

text \<open>
  The repository is a set of run-once Node.js scripts. Two of them
  (\<^verbatim>\<open>lgb-scrape-NoMetro.js\<close> and its earlier variant) walk a paginated listing API,
  resolve an address for every listing and write a CSV file; three more
  (\<^verbatim>\<open>texasfile_enrichment.js\<close> and two later variants) read that CSV file and add what a
  county-clerk search says about liens.

  The embedding is shallow. Every JavaScript function that a property below speaks
  about is a HOL function of the same name; a value that comes over the network is a
  parameter; an exception is a value of a sum type; a \<^verbatim>\<open>while (true)\<close> loop
  around a network call is a partial function whose value \<open>None\<close> means that the
  loop never ends.

  Text is modelled as ASCII: a \<^typ>\<open>string\<close> is a list of 8-bit characters, case
  mapping touches the 26 letters only and white space is the six ASCII white-space
  characters.
\<close>

section \<open>Text\<close>

text \<open>White space as \<^verbatim>\<open>\s\<close> and \<^verbatim>\<open>trim\<close> see it: space, TAB, LF, VT, FF, CR.\<close>

definition isSpace :: "char \<Rightarrow> bool" where
  "isSpace c = (c \<in> set [CHR '' '', CHR 0x09, CHR 0x0A, CHR 0x0B, CHR 0x0C, CHR 0x0D])"

definition isDigit :: "char \<Rightarrow> bool" where
  "isDigit c = (48 \<le> (of_char c :: nat) \<and> (of_char c :: nat) \<le> 57)"

definition toUpperChar :: "char \<Rightarrow> char" where
  "toUpperChar c =
     (let n = (of_char c :: nat) in if 97 \<le> n \<and> n \<le> 122 then char_of (n - 32) else c)"

definition toLowerChar :: "char \<Rightarrow> char" where
  "toLowerChar c =
     (let n = (of_char c :: nat) in if 65 \<le> n \<and> n \<le> 90 then char_of (n + 32) else c)"

definition toUpperCase :: "string \<Rightarrow> string" where
  "toUpperCase s = map toUpperChar s"

definition toLowerCase :: "string \<Rightarrow> string" where
  "toLowerCase s = map toLowerChar s"

definition trim :: "string \<Rightarrow> string" where
  "trim s = rev (dropWhile isSpace (rev (dropWhile isSpace s)))"

text \<open>\<^verbatim>\<open>s.startsWith(t)\<close>, \<^verbatim>\<open>s.endsWith(t)\<close> and \<^verbatim>\<open>s.includes(t)\<close>
  (\<open>strIncludes\<close>).\<close>

definition startsWith :: "string \<Rightarrow> string \<Rightarrow> bool" where
  "startsWith s pre = (take (length pre) s = pre)"

definition endsWith :: "string \<Rightarrow> string \<Rightarrow> bool" where
  "endsWith s suf = (length suf \<le> length s \<and> drop (length s - length suf) s = suf)"

fun strIncludes :: "string \<Rightarrow> string \<Rightarrow> bool" where
  "strIncludes [] t = (t = [])"
| "strIncludes (c # cs) t = (startsWith (c # cs) t \<or> strIncludes cs t)"

text \<open>\<^verbatim>\<open>parts.join(sep)\<close> on an array of strings.\<close>

fun joinWith :: "string \<Rightarrow> string list \<Rightarrow> string" where
  "joinWith sep [] = []"
| "joinWith sep [x] = x"
| "joinWith sep (x # y # ys) = x @ sep @ joinWith sep (y # ys)"

section \<open>County names (\<^verbatim>\<open>normalizeCountyName\<close>)\<close>

text \<open>
  \<^verbatim>\<open>
  const normalizeCountyName = raw => {
    if (!raw) return '';
    const upper = raw.trim().toUpperCase().replace(/\s+/g, ' ');
    const withoutState = upper.replace(/\s*,\s*TX$/, '');
    return withoutState.endsWith(' COUNTY') ? withoutState : `${withoutState} COUNTY`;
  };
  \<close>
  The function is the same in both listing scripts.
\<close>

text \<open>\<^verbatim>\<open>replace(/\s+/g, ' ')\<close>: every maximal run of white space becomes one space.\<close>

function collapseSpaces :: "string \<Rightarrow> string" where
  "collapseSpaces [] = []"
| "collapseSpaces (c # cs) =
     (if isSpace c then CHR '' '' # collapseSpaces (dropWhile isSpace cs)
      else c # collapseSpaces cs)"
  by pat_completeness auto
termination
  by (relation "measure length") (auto simp: length_dropWhile_le less_Suc_eq_le)

text \<open>
  \<^verbatim>\<open>replace(/\s*,\s*TX$/, '')\<close>: \<open>stateSuffix t\<close> says that the whole of \<open>t\<close> matches
  \<^verbatim>\<open>\s*,\s*TX\<close>; the replacement cuts the text at the leftmost position from which
  the rest matches, and leaves it alone when there is none. Neither \<^verbatim>\<open>,\<close> nor
  \<^verbatim>\<open>T\<close> is white space, so the greedy \<^verbatim>\<open>\s*\<close> never has to give anything back.
\<close>

definition stateSuffix :: "string \<Rightarrow> bool" where
  "stateSuffix t =
     (case dropWhile isSpace t of
        [] \<Rightarrow> False
      | c # r \<Rightarrow> c = CHR '','' \<and> dropWhile isSpace r = ''TX'')"

fun stripState :: "string \<Rightarrow> string" where
  "stripState [] = []"
| "stripState (c # cs) = (if stateSuffix (c # cs) then [] else c # stripState cs)"

definition normalizeCountyName :: "string \<Rightarrow> string" where
  "normalizeCountyName raw =
     (if raw = [] then []
      else
        let upper = collapseSpaces (toUpperCase (trim raw));
            withoutState = stripState upper
        in if endsWith withoutState '' COUNTY'' then withoutState
           else withoutState @ '' COUNTY'')"

text \<open>The vocabulary of the postcondition.\<close>

definition isUpperCase :: "string \<Rightarrow> bool" where
  "isUpperCase s = (toUpperCase s = s)"

text \<open>
  \<open>singleSpaced s\<close>: the only white space in \<open>s\<close> is the space character, and no
  space is followed by white space.
\<close>

fun singleSpaced :: "string \<Rightarrow> bool" where
  "singleSpaced [] = True"
| "singleSpaced [c] = (isSpace c \<longrightarrow> c = CHR '' '')"
| "singleSpaced (c # d # cs) =
     ((isSpace c \<longrightarrow> c = CHR '' '' \<and> \<not> isSpace d) \<and> singleSpaced (d # cs))"

definition trimmed :: "string \<Rightarrow> bool" where
  "trimmed s = (s = [] \<or> (\<not> isSpace (hd s) \<and> \<not> isSpace (last s)))"

text \<open>What the first three steps of \<open>normalizeCountyName\<close> leave of the input.\<close>

definition countyStem :: "string \<Rightarrow> string" where
  "countyStem raw = stripState (collapseSpaces (toUpperCase (trim raw)))"

section \<open>JavaScript values\<close>

text \<open>
  What \<^verbatim>\<open>JSON.parse\<close> and the scripts' own object literals produce. A number is
  held as its decimal rendering (\<^verbatim>\<open>Number::toString\<close>): the scripts only ever test a
  number for truthiness, turn it into text or serialise it, and all three are functions of
  the rendering (\<^verbatim>\<open>-0\<close> renders as \<^verbatim>\<open>0\<close>). The properties of an object are
  listed in the order in which JavaScript enumerates them.
\<close>

datatype jsval =
    JUndefined
  | JNull
  | JBool bool
  | JNum string
  | JStr string
  | JArr "jsval list"
  | JObj "(string \<times> jsval) list"

text \<open>
  Exceptions. An Axios error carries \<^verbatim>\<open>error.response?.status\<close> and
  \<^verbatim>\<open>error.message\<close>; the text of a built-in error is the engine's and is not
  modelled.
\<close>

datatype jserror = TypeError | RangeError | AxiosError "nat option" string

fun errStatus :: "jserror \<Rightarrow> nat option" where
  "errStatus (AxiosError st msg) = st"
| "errStatus _ = None"

fun errMessage :: "jserror \<Rightarrow> string" where
  "errMessage (AxiosError st msg) = msg"
| "errMessage TypeError = ''TypeError''"
| "errMessage RangeError = ''RangeError''"

text \<open>
  \<^verbatim>\<open>Boolean(v)\<close>, \<^verbatim>\<open>a || b\<close>, a property read \<^verbatim>\<open>o.k\<close> or \<^verbatim>\<open>o?.k\<close> for an ordinary
  key (\<^verbatim>\<open>undefined\<close> on everything that is not an object; where the source reads a
  property of \<^verbatim>\<open>null\<close> or \<^verbatim>\<open>undefined\<close> without \<^verbatim>\<open>?.\<close> the caller models the
  \<^verbatim>\<open>TypeError\<close>), and \<^verbatim>\<open>Array.isArray\<close>.
\<close>

fun truthy :: "jsval \<Rightarrow> bool" where
  "truthy JUndefined = False"
| "truthy JNull = False"
| "truthy (JBool b) = b"
| "truthy (JNum n) = (n \<noteq> ''0'' \<and> n \<noteq> ''NaN'')"
| "truthy (JStr s) = (s \<noteq> [])"
| "truthy (JArr xs) = True"
| "truthy (JObj kvs) = True"

definition orElse :: "jsval \<Rightarrow> jsval \<Rightarrow> jsval" where
  "orElse a b = (if truthy a then a else b)"

fun getProp :: "jsval \<Rightarrow> string \<Rightarrow> jsval" where
  "getProp (JObj kvs) k = (case map_of kvs k of Some v \<Rightarrow> v | None \<Rightarrow> JUndefined)"
| "getProp _ k = JUndefined"

definition isNullish :: "jsval \<Rightarrow> bool" where
  "isNullish v = (v = JUndefined \<or> v = JNull)"

fun isArray :: "jsval \<Rightarrow> bool" where
  "isArray (JArr xs) = True"
| "isArray _ = False"

text \<open>
  \<^verbatim>\<open>String(v)\<close>, \<^verbatim>\<open>v.toString()\<close> and the conversion inside a template literal or
  \<^verbatim>\<open>join\<close>: an array is its elements joined by commas, with \<^verbatim>\<open>null\<close> and
  \<^verbatim>\<open>undefined\<close> elements empty.
\<close>

fun toStr :: "jsval \<Rightarrow> string" and toStrElems :: "jsval list \<Rightarrow> string list" where
  "toStr JUndefined = ''undefined''"
| "toStr JNull = ''null''"
| "toStr (JBool b) = (if b then ''true'' else ''false'')"
| "toStr (JNum n) = n"
| "toStr (JStr s) = s"
| "toStr (JArr xs) = joinWith '','' (toStrElems xs)"
| "toStr (JObj kvs) = ''[object Object]''"
| "toStrElems [] = []"
| "toStrElems (x # xs) = (if x = JUndefined \<or> x = JNull then [] else toStr x) # toStrElems xs"

text \<open>
  \<^verbatim>\<open>JSON.stringify\<close>. The scripts never serialise \<^verbatim>\<open>undefined\<close> itself; inside
  an array it becomes \<^verbatim>\<open>null\<close>, and a property whose value is \<^verbatim>\<open>undefined\<close> is
  left out.
\<close>

definition hexDigit :: "nat \<Rightarrow> char" where
  "hexDigit n = (if n < 10 then char_of (48 + n) else char_of (87 + n))"

definition escapeChar :: "char \<Rightarrow> string" where
  "escapeChar c =
     (if c = CHR 0x22 then [CHR 0x5C, CHR 0x22]
      else if c = CHR 0x5C then [CHR 0x5C, CHR 0x5C]
      else if c = CHR 0x08 then [CHR 0x5C, CHR ''b'']
      else if c = CHR 0x0C then [CHR 0x5C, CHR ''f'']
      else if c = CHR 0x0A then [CHR 0x5C, CHR ''n'']
      else if c = CHR 0x0D then [CHR 0x5C, CHR ''r'']
      else if c = CHR 0x09 then [CHR 0x5C, CHR ''t'']
      else if (of_char c :: nat) < 32
        then [CHR 0x5C, CHR ''u'', CHR ''0'', CHR ''0'',
              hexDigit (of_char c div 16), hexDigit (of_char c mod 16)]
      else [c])"

definition quoteJSON :: "string \<Rightarrow> string" where
  "quoteJSON s = [CHR 0x22] @ concat (map escapeChar s) @ [CHR 0x22]"

fun stringify :: "jsval \<Rightarrow> string"
  and stringifyElems :: "jsval list \<Rightarrow> string list"
  and stringifyProps :: "(string \<times> jsval) list \<Rightarrow> string list" where
  "stringify JUndefined = ''null''"
| "stringify JNull = ''null''"
| "stringify (JBool b) = (if b then ''true'' else ''false'')"
| "stringify (JNum n) = n"
| "stringify (JStr s) = quoteJSON s"
| "stringify (JArr xs) = ''['' @ joinWith '','' (stringifyElems xs) @ '']''"
| "stringify (JObj kvs) = ''{'' @ joinWith '','' (stringifyProps kvs) @ ''}''"
| "stringifyElems [] = []"
| "stringifyElems (x # xs) = stringify x # stringifyElems xs"
| "stringifyProps [] = []"
| "stringifyProps ((k, v) # kvs) =
     (if v = JUndefined then stringifyProps kvs
      else (quoteJSON k @ '':'' @ stringify v) # stringifyProps kvs)"

section \<open>Vacancy (\<^verbatim>\<open>isVacantLot\<close>, \<^verbatim>\<open>detectVacancy\<close>)\<close>

text \<open>
  \<^verbatim>\<open>lgb-scrape-NoMetro.js\<close>:
  \<^verbatim>\<open>
  function isVacantLot(legal_description = '', address = '') {
    const vacancyKeywords = ["VACANT", "LOT", "LOTS", "ACRE", "ACRES", "LAND", "LANDS", "TRACT",
      "TRACTS", "PARCEL", "PARCELS", "UNDEVELOPED", "UNIMPROVED", "RURAL"];
    const text = `${legal_description} ${address}`.toUpperCase();
    return vacancyKeywords.some(term => text.includes(term));
  }
  function detectVacancy(legalDesc = "", saleNotes = "") {
    const upperLegal = legalDesc.toUpperCase();
    const upperNotes = saleNotes.toUpperCase();
    for (const term of vacancyKeywords) {
      if (upperLegal.includes(term)) return { match: term, source: "legalDesc" };
      if (upperNotes.includes(term)) return { match: term, source: "saleNotes" };
    }
    return null;
  }
  \<close>
  Both are modelled on texts; \<open>detectVacancyJ\<close> below is the call on values, where
  \<^verbatim>\<open>toUpperCase\<close> of anything but a string is a \<^verbatim>\<open>TypeError\<close>.
\<close>

definition vacancyKeywords :: "string list" where
  "vacancyKeywords =
     [''VACANT'', ''LOT'', ''LOTS'', ''ACRE'', ''ACRES'', ''LAND'', ''LANDS'', ''TRACT'',
      ''TRACTS'', ''PARCEL'', ''PARCELS'', ''UNDEVELOPED'', ''UNIMPROVED'', ''RURAL'']"

definition isVacantLot :: "string \<Rightarrow> string \<Rightarrow> bool" where
  "isVacantLot legal_desc addr =
     (let text = toUpperCase (legal_desc @ '' '' @ addr)
      in list_ex (\<lambda>term. strIncludes text term) vacancyKeywords)"

fun detectVacancyScan :: "string \<Rightarrow> string \<Rightarrow> string list \<Rightarrow> (string \<times> string) option" where
  "detectVacancyScan upperLegal upperNotes [] = None"
| "detectVacancyScan upperLegal upperNotes (term # terms) =
     (if strIncludes upperLegal term then Some (term, ''legalDesc'')
      else if strIncludes upperNotes term then Some (term, ''saleNotes'')
      else detectVacancyScan upperLegal upperNotes terms)"

definition detectVacancy :: "string \<Rightarrow> string \<Rightarrow> (string \<times> string) option" where
  "detectVacancy legalDesc saleNotes =
     detectVacancyScan (toUpperCase legalDesc) (toUpperCase saleNotes) vacancyKeywords"

text \<open>
  The second listing script (\<^verbatim>\<open>src/unnamed/part_004\<close>; its definitions carry the
  suffix \<open>_B\<close>) has its own test:
  \<^verbatim>\<open>
  function isVacantLot(legalDesc = '', address = '') {
    const vacantTerms = ['LOT', 'VACANT', 'LANDLOCKED', 'UNDEVELOPED', 'UNIMPROVED', 'TRACT'];
    const hasNoAddress = !address || address.trim() === '';
    const hasLegalDesc = !!(legalDesc && legalDesc.trim());
    const containsVacantTerm = vacantTerms.some(t => (legalDesc || '').toUpperCase().includes(t));
    return (hasNoAddress && hasLegalDesc) || containsVacantTerm;
  }
  \<close>
\<close>

definition vacantTerms_B :: "string list" where
  "vacantTerms_B = [''LOT'', ''VACANT'', ''LANDLOCKED'', ''UNDEVELOPED'', ''UNIMPROVED'', ''TRACT'']"

definition isVacantLot_B :: "string \<Rightarrow> string \<Rightarrow> bool" where
  "isVacantLot_B legalDesc addr =
     (let hasNoAddress = (addr = [] \<or> trim addr = []);
          hasLegalDesc = (legalDesc \<noteq> [] \<and> trim legalDesc \<noteq> []);
          containsVacantTerm = list_ex (\<lambda>t. strIncludes (toUpperCase legalDesc) t) vacantTerms_B
      in (hasNoAddress \<and> hasLegalDesc) \<or> containsVacantTerm)"

section \<open>Bids\<close>

text \<open>
  \<^verbatim>\<open>parseFloat((x || '').toString().replace(/[^0-9.]/g, '')) || 0\<close>.
  After the replacement the text holds digits and dots only, so \<^verbatim>\<open>parseFloat\<close> reads
  the longest prefix of the form \<^verbatim>\<open>digits\<close>, \<^verbatim>\<open>digits.digits\<close>, \<^verbatim>\<open>digits.\<close> or
  \<^verbatim>\<open>.digits\<close> and is \<^verbatim>\<open>NaN\<close> (here \<open>None\<close>) when there is none; \<open>parseFloat\<close>
  below is \<^verbatim>\<open>parseFloat\<close> on such texts and yields the exact decimal value.
  JavaScript rounds that value to a double; the rounding is the parameter
  \<open>toDouble\<close>, and every property below holds for every rounding. \<^verbatim>\<open>NaN || 0\<close>
  and \<^verbatim>\<open>0 || 0\<close> are both \<^verbatim>\<open>0\<close>.
\<close>

definition digitVal :: "char \<Rightarrow> nat" where
  "digitVal c = of_char c - 48"

definition digitsVal :: "string \<Rightarrow> nat" where
  "digitsVal ds = foldl (\<lambda>acc c. 10 * acc + digitVal c) 0 ds"

definition parseFloat :: "string \<Rightarrow> rat option" where
  "parseFloat s =
     (let ip = takeWhile isDigit s;
          rest = dropWhile isDigit s;
          fp = (case rest of [] \<Rightarrow> [] | c # r \<Rightarrow> if c = CHR ''.'' then takeWhile isDigit r else [])
      in if ip = [] \<and> fp = [] then None
         else Some (of_int (int (digitsVal ip)) + of_int (int (digitsVal fp)) / 10 ^ length fp))"

definition bidNumber :: "(rat \<Rightarrow> 'd) \<Rightarrow> jsval \<Rightarrow> 'd" where
  "bidNumber toDouble x =
     toDouble
       (case parseFloat (filter (\<lambda>c. isDigit c \<or> c = CHR ''.'') (toStr (orElse x (JStr [])))) of
          None \<Rightarrow> 0
        | Some q \<Rightarrow> q)"

section \<open>Address resolution\<close>

text \<open>
  The block is the same in both listing scripts:
  \<^verbatim>\<open>
  const uidStr = (p.uid || '').toString();
  if (uidMap && uidMap.has(uidStr) && uidMap.get(uidStr)) {
    chosenAddress = uidMap.get(uidStr); addressSource = 'api_list';
  } else if (details && (details.prop_address_one || details.prop_city || details.prop_zipcode)) {
    chosenAddress = [details.prop_address_one, details.prop_city, details.prop_state,
                     details.prop_zipcode].filter(Boolean).join(', ');
    addressSource = 'detail';
  } else if (p.prop_address_one) {
    chosenAddress = [p.prop_address_one, p.prop_city, p.prop_state, p.prop_zipcode]
                      .filter(Boolean).join(', ');
    addressSource = 'listing';
  } else {
    chosenAddress = `${county} (address missing)`; addressSource = 'approximated';
  }
  \<close>
  \<open>uidMap\<close> is the \<^verbatim>\<open>Map\<close> that \<^verbatim>\<open>fetchUidAddressMapForCounty\<close> returns (keys and
  values are strings), \<open>details\<close> the object that \<^verbatim>\<open>getPropertyDetails\<close> returns
  (an object in every branch, possibly empty). The arrays \<^verbatim>\<open>apiSourced\<close>,
  \<^verbatim>\<open>detailSourced\<close>, \<^verbatim>\<open>listSourced\<close> and \<^verbatim>\<open>approximated\<close> only feed log lines
  and are left out.
\<close>

definition joinParts :: "jsval list \<Rightarrow> string" where
  "joinParts parts = joinWith '', '' (map toStr (filter truthy parts))"

definition lookupNonEmpty :: "(string \<rightharpoonup> string) \<Rightarrow> string \<Rightarrow> string option" where
  "lookupNonEmpty m k = (case m k of Some a \<Rightarrow> if a \<noteq> [] then Some a else None | None \<Rightarrow> None)"

definition resolveAddress ::
  "(string \<rightharpoonup> string) \<Rightarrow> (string \<times> jsval) list \<Rightarrow> jsval \<Rightarrow> string \<Rightarrow> string \<times> string" where
  "resolveAddress uidMap details p cty =
     (let uidStr = toStr (orElse (getProp p ''uid'') (JStr []));
          d = JObj details
      in case lookupNonEmpty uidMap uidStr of
           Some a \<Rightarrow> (a, ''api_list'')
         | None \<Rightarrow>
             if truthy d \<and> (truthy (getProp d ''prop_address_one'') \<or> truthy (getProp d ''prop_city'')
                  \<or> truthy (getProp d ''prop_zipcode''))
             then (joinParts [getProp d ''prop_address_one'', getProp d ''prop_city'',
                              getProp d ''prop_state'', getProp d ''prop_zipcode''], ''detail'')
             else if truthy (getProp p ''prop_address_one'')
             then (joinParts [getProp p ''prop_address_one'', getProp p ''prop_city'',
                              getProp p ''prop_state'', getProp p ''prop_zipcode''], ''listing'')
             else (cty @ '' (address missing)'', ''approximated''))"

section \<open>The orchestrator (\<^verbatim>\<open>main\<close>)\<close>

text \<open>
  The rows of the CSV file. The two scripts share twelve columns; the first adds
  \<^verbatim>\<open>case_style\<close>, \<^verbatim>\<open>sale_notes\<close>, \<^verbatim>\<open>vacant_keyword\<close> and \<^verbatim>\<open>vacant_source\<close>,
  the second \<^verbatim>\<open>owner_name\<close> and \<^verbatim>\<open>is_vacant\<close>.
\<close>

record outputBase =
  uid :: jsval
  county :: string
  sale_date :: string
  address :: string
  address_source :: string
  adjudged_value :: jsval
  min_bid :: jsval
  status :: jsval
  sale_type :: jsval
  cause_number :: jsval
  legal_description :: jsval
  coordinates :: string

record outputRecord = outputBase +
  case_style :: jsval
  sale_notes :: jsval
  vacant_keyword :: string
  vacant_source :: string

record outputRecord_B = outputBase +
  owner_name :: jsval
  is_vacant :: string

text \<open>
  One pass through the body of \<^verbatim>\<open>for (const p of props)\<close>: an exception (caught by
  the \<^verbatim>\<open>try\<close> around the county), a \<^verbatim>\<open>continue\<close>, or a record pushed.
\<close>

datatype 'r iteration = Threw jserror | Skipped | Pushed 'r

text \<open>
  What \<^verbatim>\<open>main\<close> is given: the formatting of a date
  (\<^verbatim>\<open>new Date(d).toLocaleDateString('en-US', ...)\<close>), the rounding to a double,
  \<^verbatim>\<open>TEST_LIMIT\<close> (0 when unset), and the values that its awaited calls return:
  \<^verbatim>\<open>getLatestSaleDate()\<close>, \<^verbatim>\<open>getAllCounties()\<close>, \<^verbatim>\<open>fetchUidAddressMapForCounty(county)\<close>,
  \<^verbatim>\<open>getProperties(county)\<close> (which may throw) and \<^verbatim>\<open>getPropertyDetails(uid)\<close>.
\<close>

record 'd listingEnv =
  formatDate :: "jsval \<Rightarrow> string"
  toDouble :: "rat \<Rightarrow> 'd"
  testLimit :: nat
  saleDate :: jsval
  counties :: "string list"
  uidMapOf :: "string \<Rightarrow> (string \<rightharpoonup> string)"
  propsOf :: "string \<Rightarrow> jserror + jsval list"
  detailsOf :: "jsval \<Rightarrow> (string \<times> jsval) list"

text \<open>
  \<^verbatim>\<open>p.status && p.status.toLowerCase().includes('cancel')\<close>.
\<close>

definition isCancelled :: "jsval \<Rightarrow> jserror + bool" where
  "isCancelled st =
     (if \<not> truthy st then Inr False
      else case st of
             JStr s \<Rightarrow> Inr (strIncludes (toLowerCase s) ''cancel'')
           | _ \<Rightarrow> Inl TypeError)"

text \<open>
  \<^verbatim>\<open>
  const actualSaleDate = p.sale_date || details.sale_date || saleDate;
  const formattedSaleDate = actualSaleDate && actualSaleDate !== 'unknown'
    ? new Date(actualSaleDate).toLocaleDateString('en-US', {...}) : '';
  \<close>
\<close>

definition formattedSaleDate :: "'d listingEnv \<Rightarrow> jsval \<Rightarrow> (string \<times> jsval) list \<Rightarrow> string" where
  "formattedSaleDate env p details =
     (let actualSaleDate =
            orElse (orElse (getProp p ''sale_date'') (getProp (JObj details) ''sale_date''))
              (saleDate env)
      in if truthy actualSaleDate \<and> actualSaleDate \<noteq> JStr ''unknown''
         then formatDate env actualSaleDate else [])"

definition detectVacancyJ :: "jsval \<Rightarrow> jsval \<Rightarrow> jserror + (string \<times> string) option" where
  "detectVacancyJ legalDesc saleNotes =
     (case (legalDesc, saleNotes) of
        (JStr l, JStr n) \<Rightarrow> Inr (detectVacancy l n)
      | _ \<Rightarrow> Inl TypeError)"

text \<open>
  The body of the inner loop of \<^verbatim>\<open>lgb-scrape-NoMetro.js\<close>: skip a cancelled
  listing, skip a minimum bid above 5000, fetch the details, resolve the address, skip
  what \<^verbatim>\<open>detectVacancy\<close> does not match, push the record.
\<close>

definition processProperty ::
  "('d::linorder) listingEnv \<Rightarrow> string \<Rightarrow> jsval \<Rightarrow> outputRecord iteration" where
  "processProperty env cty p =
     (if isNullish p then Threw TypeError
      else case isCancelled (getProp p ''status'') of
        Inl e \<Rightarrow> Threw e
      | Inr True \<Rightarrow> Skipped
      | Inr False \<Rightarrow>
          let minBid = bidNumber (toDouble env) (getProp p ''minimum_bid'')
          in if toDouble env 5000 < minBid then Skipped
          else
            let details = detailsOf env (getProp p ''uid'');
                d = JObj details;
                (chosenAddress, addressSource) = resolveAddress (uidMapOf env cty) details p cty
            in case detectVacancyJ (orElse (getProp d ''legal_description'') (JStr []))
                      (orElse (getProp p ''sale_notes'') (JStr [])) of
                 Inl e \<Rightarrow> Threw e
               | Inr None \<Rightarrow> Skipped
               | Inr (Some (match, source)) \<Rightarrow>
                   Pushed \<lparr>
                     uid = getProp p ''uid'',
                     county = cty,
                     sale_date = formattedSaleDate env p details,
                     address = chosenAddress,
                     address_source = addressSource,
                     adjudged_value = orElse (getProp p ''value'') (JStr []),
                     min_bid = orElse (getProp p ''minimum_bid'') (JStr []),
                     status = orElse (getProp p ''status'') (JStr []),
                     sale_type = orElse (getProp p ''sale_type'') (JStr []),
                     cause_number = orElse (getProp p ''cause_nbr'') (JStr []),
                     legal_description = orElse (getProp d ''legal_description'') (JStr []),
                     coordinates =
                       stringify (orElse (getProp (getProp d ''geometry'') ''coordinates'') (JStr [])),
                     case_style = orElse (getProp d ''case_style'') (JStr []),
                     sale_notes = orElse (getProp p ''sale_notes'') (JStr []),
                     vacant_keyword = match,
                     vacant_source = source \<rparr>)"

text \<open>
  The body of the inner loop of the second script: the bid limit is \<^verbatim>\<open>>= 5000\<close>,
  an adjudged value above 100000 is skipped as well, and nothing is skipped for
  vacancy.
\<close>

definition processProperty_B ::
  "('d::linorder) listingEnv \<Rightarrow> string \<Rightarrow> jsval \<Rightarrow> outputRecord_B iteration" where
  "processProperty_B env cty p =
     (if isNullish p then Threw TypeError
      else case isCancelled (getProp p ''status'') of
        Inl e \<Rightarrow> Threw e
      | Inr True \<Rightarrow> Skipped
      | Inr False \<Rightarrow>
          let minBid = bidNumber (toDouble env) (getProp p ''minimum_bid'')
          in if toDouble env 5000 \<le> minBid then Skipped
          else
            let adjudgedValueNum = bidNumber (toDouble env) (getProp p ''value'')
            in if toDouble env 100000 < adjudgedValueNum then Skipped
            else
              let details = detailsOf env (getProp p ''uid'');
                  d = JObj details;
                  (chosenAddress, addressSource) = resolveAddress (uidMapOf env cty) details p cty
              in Pushed \<lparr>
                   uid = getProp p ''uid'',
                   county = cty,
                   sale_date = formattedSaleDate env p details,
                   address = chosenAddress,
                   address_source = addressSource,
                   adjudged_value = orElse (getProp p ''value'') (JStr []),
                   min_bid = orElse (getProp p ''minimum_bid'') (JStr []),
                   status = orElse (getProp p ''status'') (JStr []),
                   sale_type = orElse (getProp p ''sale_type'') (JStr []),
                   cause_number = orElse (getProp p ''cause_nbr'') (JStr []),
                   legal_description = orElse (getProp d ''legal_description'') (JStr []),
                   coordinates =
                     (if truthy (getProp d ''coordinates'')
                      then stringify (getProp d ''coordinates'') else []),
                   owner_name = orElse (getProp d ''owner_name'') (JStr []),
                   is_vacant = (if truthy (getProp d ''is_vacant'') then ''YES'' else ''NO'') \<rparr>)"

text \<open>
  The two loops, the same in both scripts. An exception leaves the county
  (\<^verbatim>\<open>catch (err) { console.error(`Skipping county ...`) }\<close>) and keeps what was
  pushed; \<^verbatim>\<open>if (TEST_LIMIT && results.length >= TEST_LIMIT) break\<close> follows every push
  and every county.
\<close>

fun processProps ::
  "(jsval \<Rightarrow> 'r iteration) \<Rightarrow> nat \<Rightarrow> jsval list \<Rightarrow> 'r list \<Rightarrow> 'r list" where
  "processProps body limit [] results = results"
| "processProps body limit (p # ps) results =
     (case body p of
        Threw e \<Rightarrow> results
      | Skipped \<Rightarrow> processProps body limit ps results
      | Pushed r \<Rightarrow>
          if limit \<noteq> 0 \<and> limit \<le> length (results @ [r]) then results @ [r]
          else processProps body limit ps (results @ [r]))"

fun processCounties ::
  "(string \<Rightarrow> jsval \<Rightarrow> 'r iteration) \<Rightarrow> (string \<Rightarrow> jserror + jsval list) \<Rightarrow> nat \<Rightarrow>
     string list \<Rightarrow> 'r list \<Rightarrow> 'r list" where
  "processCounties body props limit [] results = results"
| "processCounties body props limit (c # cs) results =
     (let results' =
            (case props c of
               Inl e \<Rightarrow> results
             | Inr ps \<Rightarrow> processProps (body c) limit ps results)
      in if limit \<noteq> 0 \<and> limit \<le> length results' then results'
         else processCounties body props limit cs results')"

text \<open>
  \<^verbatim>\<open>
  results.sort((a, b) => {
    const aNum = parseFloat((a.min_bid || '').toString().replace(/[^0-9.]/g, '')) || 0;
    const bNum = parseFloat((b.min_bid || '').toString().replace(/[^0-9.]/g, '')) || 0;
    return aNum - bNum;
  });
  \<close>
  \<^verbatim>\<open>Array.prototype.sort\<close> is stable, and the comparison is that of the two keys, so
  the result is the stable sort by the key. \<open>main\<close> yields the rows it writes, or
  \<open>None\<close> when it returns before writing.
\<close>

definition sortResults :: "('d::linorder) listingEnv \<Rightarrow> ('a outputBase_scheme) list \<Rightarrow> ('a outputBase_scheme) list" where
  "sortResults env results = sort_key (\<lambda>r. bidNumber (toDouble env) (min_bid r)) results"

definition main :: "('d::linorder) listingEnv \<Rightarrow> outputRecord list option" where
  "main env =
     (if counties env = [] then None
      else
        let results = processCounties (processProperty env) (propsOf env) (testLimit env)
                        (counties env) []
        in if results = [] then None else Some (sortResults env results))"

definition main_B :: "('d::linorder) listingEnv \<Rightarrow> outputRecord_B list option" where
  "main_B env =
     (if counties env = [] then None
      else
        let results = processCounties (processProperty_B env) (propsOf env) (testLimit env)
                        (counties env) []
        in if results = [] then None else Some (sortResults env results))"

text \<open>
  The vocabulary of the address properties: the four tags, and whether a fetched
  source (bulk map, detail record, listing row) holds an address for the listing.
\<close>

definition addressSources :: "string list" where
  "addressSources = [''api_list'', ''detail'', ''listing'', ''approximated'']"

definition fetchedAddressAvailable ::
  "(string \<rightharpoonup> string) \<Rightarrow> (string \<times> jsval) list \<Rightarrow> jsval \<Rightarrow> bool" where
  "fetchedAddressAvailable uidMap details p =
     (lookupNonEmpty uidMap (toStr (orElse (getProp p ''uid'') (JStr []))) \<noteq> None \<or>
      truthy (getProp (JObj details) ''prop_address_one'') \<or>
      truthy (getProp (JObj details) ''prop_city'') \<or>
      truthy (getProp (JObj details) ''prop_zipcode'') \<or>
      truthy (getProp p ''prop_address_one''))"

definition sourceOk :: "'a outputBase_scheme \<Rightarrow> bool" where
  "sourceOk r =
     (address_source r \<in> set addressSources \<and>
      (address_source r = ''approximated'' \<longrightarrow> address r = county r @ '' (address missing)''))"

text \<open>
  A small run, used to exhibit the properties at a concrete input: one county, three
  listings (the third cancelled), a bulk map that knows the first listing only.
\<close>

definition demoP1 :: jsval where
  "demoP1 = JObj [(''uid'', JNum ''101''), (''status'', JStr ''Scheduled for Auction''),
     (''minimum_bid'', JStr ''$1,200''), (''prop_address_one'', JStr ''9 OTHER RD''),
     (''sale_notes'', JStr ''vacant lot'')]"

definition demoP2 :: jsval where
  "demoP2 = JObj [(''uid'', JNum ''102''), (''minimum_bid'', JStr ''abc'')]"

definition demoP3 :: jsval where
  "demoP3 = JObj [(''uid'', JNum ''103''), (''status'', JStr ''Cancelled''), (''minimum_bid'', JStr ''$500'')]"

definition demoEnv :: "rat listingEnv" where
  "demoEnv = \<lparr>
     formatDate = (\<lambda>d. toStr d),
     toDouble = (\<lambda>q. q),
     testLimit = 0,
     saleDate = JStr ''unknown'',
     counties = [''ANDERSON COUNTY''],
     uidMapOf = (\<lambda>c. [''101'' \<mapsto> ''1 MAIN ST, PALESTINE, TX, 75801'']),
     propsOf = (\<lambda>c. Inr [demoP1, demoP2, demoP3]),
     detailsOf = (\<lambda>u. if u = JNum ''101''
        then [(''prop_address_one'', JStr ''5 DETAIL AVE''), (''legal_description'', JStr ''Lot 4 Block 2'')]
        else [(''legal_description'', JStr ''TRACT 5'')]) \<rparr>"

definition demoR1 :: outputRecord where
  "demoR1 = \<lparr>uid = JNum ''101'', county = ''ANDERSON COUNTY'', sale_date = [],
      address = ''1 MAIN ST, PALESTINE, TX, 75801'',
      address_source = ''api_list'', adjudged_value = JStr [],
      min_bid = JStr ''$1,200'', status = JStr ''Scheduled for Auction'',
      sale_type = JStr [], cause_number = JStr [], legal_description = JStr ''Lot 4 Block 2'',
      coordinates = [CHR 0x22, CHR 0x22], case_style = JStr [],
      sale_notes = JStr ''vacant lot'', vacant_keyword = ''VACANT'',
      vacant_source = ''saleNotes''\<rparr>"

definition demoR2 :: outputRecord where
  "demoR2 = \<lparr>uid = JNum ''102'', county = ''ANDERSON COUNTY'', sale_date = [],
      address = ''ANDERSON COUNTY (address missing)'',
      address_source = ''approximated'', adjudged_value = JStr [],
      min_bid = JStr ''abc'', status = JStr [], sale_type = JStr [],
      cause_number = JStr [], legal_description = JStr ''TRACT 5'',
      coordinates = [CHR 0x22, CHR 0x22], case_style = JStr [],
      sale_notes = JStr [], vacant_keyword = ''TRACT'',
      vacant_source = ''legalDesc''\<rparr>"

definition demoR1_B :: outputRecord_B where
  "demoR1_B = \<lparr>uid = JNum ''101'', county = ''ANDERSON COUNTY'', sale_date = [],
      address = ''1 MAIN ST, PALESTINE, TX, 75801'',
      address_source = ''api_list'', adjudged_value = JStr [],
      min_bid = JStr ''$1,200'', status = JStr ''Scheduled for Auction'',
      sale_type = JStr [], cause_number = JStr [], legal_description = JStr ''Lot 4 Block 2'',
      coordinates = [], owner_name = JStr [], is_vacant = ''NO''\<rparr>"

definition demoR2_B :: outputRecord_B where
  "demoR2_B = \<lparr>uid = JNum ''102'', county = ''ANDERSON COUNTY'', sale_date = [],
      address = ''ANDERSON COUNTY (address missing)'',
      address_source = ''approximated'', adjudged_value = JStr [],
      min_bid = JStr ''abc'', status = JStr [], sale_type = JStr [],
      cause_number = JStr [], legal_description = JStr ''TRACT 5'',
      coordinates = [], owner_name = JStr [], is_vacant = ''NO''\<rparr>"

section \<open>The pagination walker (\<^verbatim>\<open>getProperties\<close>)\<close>

text \<open>
  The same in both listing scripts:
  \<^verbatim>\<open>
  async function getProperties(county) {
    const all = [];
    let offset = 0;
    const limit = 600;
    try {
      while (true) {
        const { data } = await axios.get(`${BASE_URL}/property_sales/`, {
          params: { county, state: 'TX', limit, offset }
        });
        if (!data?.results?.length) break;
        all.push(...data.results);
        if (!data.next) break;
        offset += limit;
        await delay(300);
      }
    } catch (err) { console.error(...); throw err; }
    return all;
  }
  \<close>
  For one county the only thing that changes from request to request is the offset,
  so the listing API is a function from the offset to what \<^verbatim>\<open>axios.get\<close> yields: an
  exception or the body of the response. The model returns what the function returns
  or throws, together with the offsets it has requested, in order. \<open>None\<close> is a walk
  that never ends.

  \<open>lengthTruthy v\<close> is the truthiness of \<^verbatim>\<open>v?.length\<close>; \<open>spread v\<close> is
  \<^verbatim>\<open>...v\<close> in an argument list, which iterates an array or the characters of a
  string and is a \<^verbatim>\<open>TypeError\<close> on anything else with a truthy length.
\<close>

definition lengthTruthy :: "jsval \<Rightarrow> bool" where
  "lengthTruthy v =
     (case v of
        JArr xs \<Rightarrow> xs \<noteq> []
      | JStr s \<Rightarrow> s \<noteq> []
      | JObj kvs \<Rightarrow> truthy (getProp v ''length'')
      | _ \<Rightarrow> False)"

definition spread :: "jsval \<Rightarrow> jserror + jsval list" where
  "spread v =
     (case v of
        JArr xs \<Rightarrow> Inr xs
      | JStr s \<Rightarrow> Inr (map (\<lambda>c. JStr [c]) s)
      | _ \<Rightarrow> Inl TypeError)"

partial_function (option) getPropertiesLoop ::
  "(nat \<Rightarrow> jserror + jsval) \<Rightarrow> nat \<Rightarrow> jsval list \<Rightarrow> nat list \<Rightarrow>
     ((jserror + jsval list) \<times> nat list) option" where
  "getPropertiesLoop fetch offset all requested =
     (case fetch offset of
        Inl err \<Rightarrow> Some (Inl err, requested @ [offset])
      | Inr data \<Rightarrow>
          if \<not> lengthTruthy (getProp data ''results'') then Some (Inr all, requested @ [offset])
          else
            (case spread (getProp data ''results'') of
               Inl err \<Rightarrow> Some (Inl err, requested @ [offset])
             | Inr items \<Rightarrow>
                 if \<not> truthy (getProp data ''next'')
                 then Some (Inr (all @ items), requested @ [offset])
                 else getPropertiesLoop fetch (offset + 600) (all @ items) (requested @ [offset])))"

declare getPropertiesLoop.simps [code]

definition getProperties ::
  "(nat \<Rightarrow> jserror + jsval) \<Rightarrow> ((jserror + jsval list) \<times> nat list) option" where
  "getProperties fetch = getPropertiesLoop fetch 0 [] []"

text \<open>
  The vocabulary of the walker's property: a page ends the walk when it has no
  results or no \<^verbatim>\<open>next\<close>; the results of a page.
\<close>

definition lastPage :: "jsval \<Rightarrow> bool" where
  "lastPage data =
     (\<not> lengthTruthy (getProp data ''results'') \<or> \<not> truthy (getProp data ''next''))"

definition pageItems :: "jsval \<Rightarrow> jsval list" where
  "pageItems data = (case getProp data ''results'' of JArr xs \<Rightarrow> xs | _ \<Rightarrow> [])"

section \<open>The county resolver (\<^verbatim>\<open>getAllCounties\<close>)\<close>

text \<open>
  The same in both listing scripts. Three stages, each inside its own \<^verbatim>\<open>try\<close>; an
  exception or an empty list falls through to the next stage.
  \<^verbatim>\<open>
  const METRO_COUNTIES = new Set(['TRAVIS COUNTY', 'DALLAS COUNTY', 'HARRIS COUNTY', 'BEXAR COUNTY']);
  \<close>
  \<open>normalizeCountyNameJ\<close> is \<^verbatim>\<open>normalizeCountyName\<close> called on a value: a falsy value
  gives \<^verbatim>\<open>''\<close>, and \<^verbatim>\<open>raw.trim\<close> of a truthy value that is not a string is a
  \<^verbatim>\<open>TypeError\<close>. \<open>mapE\<close> is \<^verbatim>\<open>Array.prototype.map\<close> with a callback that may
  throw, \<open>arrayElems\<close> the receiver of \<^verbatim>\<open>.map\<close> or \<^verbatim>\<open>.forEach\<close> (a
  \<^verbatim>\<open>TypeError\<close> unless it is an array), and a \<^verbatim>\<open>Set\<close> is the list of its members in
  insertion order.
\<close>

definition METRO_COUNTIES :: "string list" where
  "METRO_COUNTIES = [''TRAVIS COUNTY'', ''DALLAS COUNTY'', ''HARRIS COUNTY'', ''BEXAR COUNTY'']"

definition normalizeCountyNameJ :: "jsval \<Rightarrow> jserror + string" where
  "normalizeCountyNameJ raw =
     (if \<not> truthy raw then Inr []
      else case raw of JStr s \<Rightarrow> Inr (normalizeCountyName s) | _ \<Rightarrow> Inl TypeError)"

fun mapE :: "('a \<Rightarrow> jserror + 'b) \<Rightarrow> 'a list \<Rightarrow> jserror + 'b list" where
  "mapE f [] = Inr []"
| "mapE f (x # xs) =
     (case f x of
        Inl e \<Rightarrow> Inl e
      | Inr y \<Rightarrow> (case mapE f xs of Inl e \<Rightarrow> Inl e | Inr ys \<Rightarrow> Inr (y # ys)))"

definition arrayElems :: "jsval \<Rightarrow> jserror + jsval list" where
  "arrayElems v = (case v of JArr xs \<Rightarrow> Inr xs | _ \<Rightarrow> Inl TypeError)"

definition setAdd :: "'a list \<Rightarrow> 'a \<Rightarrow> 'a list" where
  "setAdd s x = (if x \<in> set s then s else s @ [x])"

definition newSet :: "'a list \<Rightarrow> 'a list" where
  "newSet xs = foldl setAdd [] xs"

definition nonMetro :: "string list \<Rightarrow> string list" where
  "nonMetro names = filter (\<lambda>n. n \<notin> set METRO_COUNTIES) (newSet names)"

text \<open>
  Stage 1:
  \<^verbatim>\<open>
  const { data } = await axios.get(COUNTY_ENDPOINT);
  const rows = Array.isArray(data?.results) ? data.results
    : Array.isArray(data) ? data : data?.sale_counties || [];
  const names = rows.map(row => {
      if (!row) return null;
      if (typeof row === 'string') return normalizeCountyName(row);
      const candidate = row.county || row.county_name || row.name || row.sale_county;
      return candidate ? normalizeCountyName(candidate) : null;
    }).filter(Boolean);
  const filtered = [...new Set(names)].filter(n => !METRO_COUNTIES.has(n));
  if (filtered.length) return filtered.sort();
  \<close>
\<close>

definition saleCountyRows :: "jsval \<Rightarrow> jsval" where
  "saleCountyRows data =
     (if isArray (getProp data ''results'') then getProp data ''results''
      else if isArray data then data
      else orElse (getProp data ''sale_counties'') (JArr []))"

definition saleCountyName :: "jsval \<Rightarrow> jserror + string option" where
  "saleCountyName row =
     (if \<not> truthy row then Inr None
      else case row of
        JStr s \<Rightarrow> Inr (Some (normalizeCountyName s))
      | _ \<Rightarrow>
        let candidate =
              orElse (orElse (orElse (getProp row ''county'') (getProp row ''county_name''))
                (getProp row ''name'')) (getProp row ''sale_county'')
        in if truthy candidate
           then (case normalizeCountyNameJ candidate of Inl e \<Rightarrow> Inl e | Inr n \<Rightarrow> Inr (Some n))
           else Inr None)"

definition filterBoolean :: "string option list \<Rightarrow> string list" where
  "filterBoolean names = concat (map (\<lambda>n. case n of Some s \<Rightarrow> if s \<noteq> [] then [s] else [] | None \<Rightarrow> []) names)"

definition countiesFromSaleCounties :: "jserror + jsval \<Rightarrow> jserror + string list" where
  "countiesFromSaleCounties response =
     (case response of
        Inl e \<Rightarrow> Inl e
      | Inr data \<Rightarrow>
          (case arrayElems (saleCountyRows data) of
             Inl e \<Rightarrow> Inl e
           | Inr rows \<Rightarrow>
               (case mapE saleCountyName rows of
                  Inl e \<Rightarrow> Inl e
                | Inr names \<Rightarrow> Inr (nonMetro (filterBoolean names)))))"

text \<open>
  Stage 2:
  \<^verbatim>\<open>
  const res = await axios.get(`${BASE_URL}/counties/`, { params: { state: 'TX', limit: 1000 } });
  const rows = res.data?.results || [];
  const names = rows.map(r => normalizeCountyName(r.name)).filter(Boolean);
  const filtered = [...new Set(names)].filter(n => !METRO_COUNTIES.has(n));
  if (filtered.length) return filtered.sort();
  \<close>
\<close>

definition countyRowName :: "jsval \<Rightarrow> jserror + string option" where
  "countyRowName r =
     (if isNullish r then Inl TypeError
      else case normalizeCountyNameJ (getProp r ''name'') of Inl e \<Rightarrow> Inl e | Inr n \<Rightarrow> Inr (Some n))"

definition countiesFromCounties :: "jserror + jsval \<Rightarrow> jserror + string list" where
  "countiesFromCounties response =
     (case response of
        Inl e \<Rightarrow> Inl e
      | Inr data \<Rightarrow>
          (case arrayElems (orElse (getProp data ''results'') (JArr [])) of
             Inl e \<Rightarrow> Inl e
           | Inr rows \<Rightarrow>
               (case mapE countyRowName rows of
                  Inl e \<Rightarrow> Inl e
                | Inr names \<Rightarrow> Inr (nonMetro (filterBoolean names)))))"

text \<open>
  Stage 3:
  \<^verbatim>\<open>
  const set = new Set();
  let offset = 0;
  const limit = 1000;
  while (true) {
    const { data } = await axios.get(`${BASE_URL}/property_sales/`, { params: { state: 'TX', limit, offset } });
    if (!data?.results?.length) break;
    data.results.forEach(p => {
      const name = normalizeCountyName(p.county);
      if (!METRO_COUNTIES.has(name)) set.add(name);
    });
    if (!data.next) break;
    offset += limit;
    await delay(500);
  }
  const arr = [...set].sort();
  if (arr.length) return arr;
  \<close>
\<close>

fun addListingCounties :: "jsval list \<Rightarrow> string list \<Rightarrow> jserror + string list" where
  "addListingCounties [] s = Inr s"
| "addListingCounties (p # ps) s =
     (if isNullish p then Inl TypeError
      else case normalizeCountyNameJ (getProp p ''county'') of
             Inl e \<Rightarrow> Inl e
           | Inr name \<Rightarrow>
               addListingCounties ps (if name \<notin> set METRO_COUNTIES then setAdd s name else s))"

partial_function (option) scanPropertySales ::
  "(nat \<Rightarrow> jserror + jsval) \<Rightarrow> nat \<Rightarrow> string list \<Rightarrow> (jserror + string list) option" where
  "scanPropertySales fetch offset s =
     (case fetch offset of
        Inl err \<Rightarrow> Some (Inl err)
      | Inr data \<Rightarrow>
          if \<not> lengthTruthy (getProp data ''results'') then Some (Inr s)
          else
            (case arrayElems (getProp data ''results'') of
               Inl err \<Rightarrow> Some (Inl err)
             | Inr ps \<Rightarrow>
                 (case addListingCounties ps s of
                    Inl err \<Rightarrow> Some (Inl err)
                  | Inr s' \<Rightarrow>
                      if \<not> truthy (getProp data ''next'') then Some (Inr s')
                      else scanPropertySales fetch (offset + 1000) s')))"

declare scanPropertySales.simps [code]

text \<open>
  What the three endpoints answer, and the resolver. \<^verbatim>\<open>sort()\<close> without a
  comparison orders strings by their code units, which on ASCII text is the
  lexicographic order of the characters. When stage 3 throws, or finds nothing, the
  function returns \<^verbatim>\<open>[]\<close>; \<open>None\<close> is a scan that never ends.
\<close>

record countyEnv =
  saleCounties :: "jserror + jsval"
  countiesEndpoint :: "jserror + jsval"
  propertySales :: "nat \<Rightarrow> jserror + jsval"

definition getAllCounties :: "countyEnv \<Rightarrow> string list option" where
  "getAllCounties env =
     (case countiesFromSaleCounties (saleCounties env) of
        Inr (c # cs) \<Rightarrow> Some (sort (c # cs))
      | _ \<Rightarrow>
        (case countiesFromCounties (countiesEndpoint env) of
           Inr (c # cs) \<Rightarrow> Some (sort (c # cs))
         | _ \<Rightarrow>
           (case scanPropertySales (propertySales env) 0 [] of
              None \<Rightarrow> None
            | Some (Inl err) \<Rightarrow> Some []
            | Some (Inr s) \<Rightarrow> Some (sort s))))"

text \<open>
  The scenario of the specification: page 1 holds 600 results and a \<^verbatim>\<open>next\<close>, page 2
  holds 400 results and no \<^verbatim>\<open>next\<close>; any other request is refused.
\<close>

definition demoItem :: jsval where
  "demoItem = JObj [(''uid'', JNum ''1'')]"

definition demoPage1 :: jsval where
  "demoPage1 = JObj [(''results'', JArr (replicate 600 demoItem)), (''next'', JStr ''?offset=600'')]"

definition demoPage2 :: jsval where
  "demoPage2 = JObj [(''results'', JArr (replicate 400 demoItem))]"

definition demoListing :: "nat \<Rightarrow> jserror + jsval" where
  "demoListing offset =
     (if offset = 0 then Inr demoPage1
      else if offset = 600 then Inr demoPage2
      else Inl (AxiosError (Some 404) ''Request failed with status code 404''))"

text \<open>Three resolver runs, one for each stage that can produce the list.\<close>

definition demoCounties1 :: countyEnv where
  "demoCounties1 = \<lparr>
     saleCounties = Inr (JObj [(''results'',
       JArr [JStr ''travis, tx'', JObj [(''county_name'', JStr ''Anderson'')], JStr ''Zavala County''])]),
     countiesEndpoint = Inl (AxiosError None ''Network Error''),
     propertySales = (\<lambda>offset. Inl (AxiosError None ''Network Error'')) \<rparr>"

definition demoCounties2 :: countyEnv where
  "demoCounties2 = \<lparr>
     saleCounties = Inl (AxiosError (Some 500) ''Request failed with status code 500''),
     countiesEndpoint = Inr (JObj [(''results'',
       JArr [JObj [(''name'', JStr ''Harris'')], JObj [(''name'', JStr ''Bee'')]])]),
     propertySales = (\<lambda>offset. Inl (AxiosError None ''Network Error'')) \<rparr>"

definition demoCounties3 :: countyEnv where
  "demoCounties3 = \<lparr>
     saleCounties = Inr (JObj [(''results'', JArr [])]),
     countiesEndpoint = Inr (JObj [(''results'', JArr [JObj [(''name'', JStr ''Harris'')]])]),
     propertySales = (\<lambda>offset.
       if offset = 0
       then Inr (JObj [(''results'', JArr [JObj [(''county'', JStr ''Dallas'')],
                                           JObj [(''county'', JStr ''Cass'')]]),
                       (''next'', JStr ''?offset=1000'')])
       else Inr (JObj [(''results'', JArr [JObj [(''county'', JStr ''Bexar County'')],
                                           JObj [(''county'', JStr ''Bee'')]])])) \<rparr>"

section \<open>Lien extraction (\<^verbatim>\<open>extractLienInfo\<close>)\<close>

text \<open>
  The enrichment scripts share the keyword list and the shape of the summary they add
  to a row. The session-based script (\<^verbatim>\<open>src/unnamed/part_000\<close>) looks for the hit
  array heuristically:
  \<^verbatim>\<open>
  function extractLienInfo(apiResponse, searchName = '') {
    try {
      let hits = [];
      if (apiResponse?.response?.response?.data?.hits?.hits) { hits = ...; }
      else if (apiResponse?.response?.data?.hits?.hits) { hits = ...; }
      else if (Array.isArray(apiResponse?.hits)) { hits = apiResponse.hits; }
      else if (apiResponse?.response?.hits) { hits = apiResponse.response.hits; }
      ...
      if ((!hits || hits.length === 0) && searchName) {
        const candidate = findCandidateArrayByText(apiResponse,
                            searchName.split(/[ ,]+/)[0] || searchName);
        if (candidate && Array.isArray(candidate) && candidate.length > 0) hits = candidate;
      }
      if ((!hits || hits.length === 0)) {
        ...
        const byLien = findByLienKeyword(apiResponse);
        if (byLien) hits = byLien;
      }
      if (!hits || hits.length === 0) { return { lien_present: false, ... }; }
      ...
      for (const item of hits) { try { ... } catch (e) { } }
      if (matchingCount === 0) { return { lien_present: false, ... }; }
      return { lien_present: true, lien_types: Array.from(lienTypes),
               lien_count: matchingCount, last_lien_date: lastLienDate,
               matching_doc_urls: Array.from(matchingUrls) };
    } catch (error) { ...; return { lien_present: false, ... }; }
  }
  \<close>
  The response is a \<^typ>\<open>jsval\<close>: a finite tree, as \<^verbatim>\<open>JSON.parse\<close> builds it.
\<close>

definition LIEN_KEYWORDS :: "string list" where
  "LIEN_KEYWORDS =
     [''LIEN'', ''MECHANICS LIEN'', ''HOSPITAL LIEN'', ''TAX LIEN FEDERAL'', ''TAX LIEN STATE'',
      ''LIS PENDENS'', ''JUDGEMENT'', ''UCC'', ''NOTICE OF TRUSTEE SALE'', ''DEED OF TRUST'',
      ''RELEASE'']"

record lienInfo =
  lien_present :: bool
  lien_types :: "string list"
  lien_count :: nat
  last_lien_date :: "string option"
  matching_doc_urls :: "jsval list"

definition emptyResult :: lienInfo where
  "emptyResult = \<lparr> lien_present = False, lien_types = [], lien_count = 0,
                     last_lien_date = None, matching_doc_urls = [] \<rparr>"

text \<open>
  The three regular expressions of the script (ISO date, US date, URL) and the
  \<^verbatim>\<open>Date\<close> class are parameters of the model: \<open>matchIso rt s\<close> is
  \<^verbatim>\<open>s.match(dateRegexIso)?.[0]\<close> and likewise for the other two, \<open>laterDate rt a b\<close>
  is \<^verbatim>\<open>new Date(a) > new Date(b)\<close>, \<open>parseDate rt v\<close> is the time value of
  \<^verbatim>\<open>new Date(v)\<close> (\<open>None\<close> for an invalid date) and \<open>isoDay rt t\<close> is
  \<^verbatim>\<open>toISOString().split('T')[0]\<close> of a valid date.
\<close>

record jsRuntime =
  matchIso :: "string \<Rightarrow> string option"
  matchUS :: "string \<Rightarrow> string option"
  matchUrl :: "string \<Rightarrow> string option"
  laterDate :: "string \<Rightarrow> string \<Rightarrow> bool"
  parseDate :: "jsval \<Rightarrow> int option"
  isoDay :: "int \<Rightarrow> string"

text \<open>
  \<open>path v [k1, ..., kn]\<close> is \<^verbatim>\<open>v?.k1?. ... ?.kn\<close>; \<open>noHits hits\<close> is the test
  \<^verbatim>\<open>!hits || hits.length === 0\<close>; \<open>knownHits\<close> is the chain of the four known shapes.
\<close>

definition path :: "jsval \<Rightarrow> string list \<Rightarrow> jsval" where
  "path v ks = foldl getProp v ks"

definition lengthIsZero :: "jsval \<Rightarrow> bool" where
  "lengthIsZero v =
     (case v of
        JArr xs \<Rightarrow> xs = []
      | JStr s \<Rightarrow> s = []
      | JObj kvs \<Rightarrow> getProp v ''length'' = JNum ''0''
      | _ \<Rightarrow> False)"

definition noHits :: "jsval \<Rightarrow> bool" where
  "noHits hits = (\<not> truthy hits \<or> lengthIsZero hits)"

definition knownHits :: "jsval \<Rightarrow> jsval" where
  "knownHits apiResponse =
     (if truthy (path apiResponse [''response'', ''response'', ''data'', ''hits'', ''hits''])
      then path apiResponse [''response'', ''response'', ''data'', ''hits'', ''hits'']
      else if truthy (path apiResponse [''response'', ''data'', ''hits'', ''hits''])
      then path apiResponse [''response'', ''data'', ''hits'', ''hits'']
      else if isArray (getProp apiResponse ''hits'')
      then getProp apiResponse ''hits''
      else if truthy (path apiResponse [''response'', ''hits''])
      then path apiResponse [''response'', ''hits'']
      else JArr [])"

text \<open>
  The two recursive searches. \<^verbatim>\<open>scan\<close> returns at once on everything that is not
  an object; an array whose first five elements, serialized and lower-cased, contain
  the text is a candidate and is not searched further, any other array is searched
  in its first five elements, an object in all its values. The functions below return
  the candidates in the order in which \<^verbatim>\<open>scan\<close> pushes them;
  \<^verbatim>\<open>candidates.sort((a, b) => b.arr.length - a.arr.length)\<close> is a stable sort, and
  the first array after it is returned (\<^verbatim>\<open>null\<close>, here \<open>None\<close>, when there is no
  candidate).
\<close>

fun scanByText :: "string \<Rightarrow> jsval \<Rightarrow> jsval list list"
  and scanElemsByText :: "string \<Rightarrow> nat \<Rightarrow> jsval list \<Rightarrow> jsval list list"
  and scanPropsByText :: "string \<Rightarrow> (string \<times> jsval) list \<Rightarrow> jsval list list" where
  "scanByText lower (JArr xs) =
     (if lower \<noteq> [] \<and> strIncludes (toLowerCase (stringify (JArr (take 5 xs)))) lower then [xs]
      else scanElemsByText lower 5 xs)"
| "scanByText lower (JObj kvs) = scanPropsByText lower kvs"
| "scanByText lower JUndefined = []"
| "scanByText lower JNull = []"
| "scanByText lower (JBool b) = []"
| "scanByText lower (JNum n) = []"
| "scanByText lower (JStr s) = []"
| "scanElemsByText lower n [] = []"
| "scanElemsByText lower 0 (x # xs) = []"
| "scanElemsByText lower (Suc n) (x # xs) = scanByText lower x @ scanElemsByText lower n xs"
| "scanPropsByText lower [] = []"
| "scanPropsByText lower ((k, v) # kvs) = scanByText lower v @ scanPropsByText lower kvs"

definition largestFirst :: "jsval list list \<Rightarrow> jsval list option" where
  "largestFirst candidates =
     (case sort_key (\<lambda>arr. - int (length arr)) candidates of [] \<Rightarrow> None | c # cs \<Rightarrow> Some c)"

definition findCandidateArrayByText :: "jsval \<Rightarrow> string \<Rightarrow> jsval list option" where
  "findCandidateArrayByText obj text = largestFirst (scanByText (toLowerCase text) obj)"

fun scanByLien :: "jsval \<Rightarrow> jsval list list"
  and scanElemsByLien :: "nat \<Rightarrow> jsval list \<Rightarrow> jsval list list"
  and scanPropsByLien :: "(string \<times> jsval) list \<Rightarrow> jsval list list" where
  "scanByLien (JArr xs) =
     (if list_ex (\<lambda>kw. strIncludes (toLowerCase (stringify (JArr (take 5 xs)))) (toLowerCase kw))
           (map toLowerCase LIEN_KEYWORDS)
      then [xs]
      else scanElemsByLien 5 xs)"
| "scanByLien (JObj kvs) = scanPropsByLien kvs"
| "scanByLien JUndefined = []"
| "scanByLien JNull = []"
| "scanByLien (JBool b) = []"
| "scanByLien (JNum n) = []"
| "scanByLien (JStr s) = []"
| "scanElemsByLien n [] = []"
| "scanElemsByLien 0 (x # xs) = []"
| "scanElemsByLien (Suc n) (x # xs) = scanByLien x @ scanElemsByLien n xs"
| "scanPropsByLien [] = []"
| "scanPropsByLien ((k, v) # kvs) = scanByLien v @ scanPropsByLien kvs"

definition findByLienKeyword :: "jsval \<Rightarrow> jsval list option" where
  "findByLienKeyword obj = largestFirst (scanByLien obj)"

text \<open>
  \<^verbatim>\<open>searchName.split(/[ ,]+/)[0]\<close> is the text before the first space or comma.
\<close>

definition firstToken :: "string \<Rightarrow> string" where
  "firstToken s = takeWhile (\<lambda>c. c \<noteq> CHR '' '' \<and> c \<noteq> CHR '','') s"

definition resolveHits :: "jsval \<Rightarrow> string \<Rightarrow> jsval" where
  "resolveHits apiResponse searchName =
     (let hits0 = knownHits apiResponse;
          hits1 =
            (if noHits hits0 \<and> searchName \<noteq> []
             then (case findCandidateArrayByText apiResponse
                          (if firstToken searchName \<noteq> [] then firstToken searchName else searchName) of
                     Some (c # cs) \<Rightarrow> JArr (c # cs)
                   | _ \<Rightarrow> hits0)
             else hits0)
      in if noHits hits1
         then (case findByLienKeyword apiResponse of Some found \<Rightarrow> JArr found | None \<Rightarrow> hits1)
         else hits1)"

text \<open>
  One round of the loop over the hits. An item whose serialization
  (\<^verbatim>\<open>JSON.stringify(item || '').toUpperCase()\<close>) holds no keyword is skipped; for any
  other item the count goes up and a type, a date and the URLs are looked for in the
  item's own string values.
\<close>

definition hasLienKeyword :: "string \<Rightarrow> bool" where
  "hasLienKeyword s = list_ex (\<lambda>k. strIncludes (toUpperCase s) (toUpperCase k)) LIEN_KEYWORDS"

definition isObjectValue :: "jsval \<Rightarrow> bool" where
  "isObjectValue v = (case v of JArr xs \<Rightarrow> True | JObj kvs \<Rightarrow> True | _ \<Rightarrow> False)"

definition objectValues :: "jsval \<Rightarrow> jsval list" where
  "objectValues v = (case v of JArr xs \<Rightarrow> xs | JObj kvs \<Rightarrow> map snd kvs | _ \<Rightarrow> [])"

definition stringValues :: "jsval \<Rightarrow> string list" where
  "stringValues item =
     concat (map (\<lambda>v. case v of JStr s \<Rightarrow> [s] | _ \<Rightarrow> []) (objectValues item))"

definition itemType :: "jsval \<Rightarrow> jsval" where
  "itemType item =
     (if isObjectValue item
      then
        let named =
              orElse (orElse (orElse (orElse (orElse (orElse (getProp item ''type'')
                (getProp item ''document_type'')) (getProp item ''doc_type''))
                (getProp item ''instrument_type'')) (getProp item ''title''))
                (getProp item ''topic'')) (getProp item ''name'')
        in if truthy named then named
           else (case filter hasLienKeyword (stringValues item) of
                   [] \<Rightarrow> named
                 | v # vs \<Rightarrow> JStr v)
      else JNull)"

definition firstDate :: "jsRuntime \<Rightarrow> string \<Rightarrow> string option" where
  "firstDate rt v = (case matchIso rt v of Some m \<Rightarrow> Some m | None \<Rightarrow> matchUS rt v)"

definition itemDate :: "jsRuntime \<Rightarrow> jsval \<Rightarrow> string option" where
  "itemDate rt item =
     (if isObjectValue item
      then (case List.map_filter (firstDate rt) (stringValues item) of [] \<Rightarrow> None | m # ms \<Rightarrow> Some m)
      else case item of JStr s \<Rightarrow> firstDate rt s | _ \<Rightarrow> None)"

definition itemUrls :: "jsRuntime \<Rightarrow> jsval \<Rightarrow> string list" where
  "itemUrls rt item =
     (if isObjectValue item then List.map_filter (matchUrl rt) (stringValues item)
      else case item of JStr s \<Rightarrow> (case matchUrl rt s of Some m \<Rightarrow> [m] | None \<Rightarrow> []) | _ \<Rightarrow> [])"

record lienAcc =
  lienTypes :: "string list"
  lastLienDate :: "string option"
  matchingUrls :: "string list"
  matchingCount :: nat

definition lienStep :: "jsRuntime \<Rightarrow> lienAcc \<Rightarrow> jsval \<Rightarrow> lienAcc" where
  "lienStep rt acc item =
     (if \<not> hasLienKeyword (stringify (orElse item (JStr []))) then acc
      else
        let ty = itemType item;
            types' = (if truthy ty then setAdd (lienTypes acc) (trim (toStr ty)) else lienTypes acc);
            date' =
              (case itemDate rt item of
                 None \<Rightarrow> lastLienDate acc
               | Some found \<Rightarrow>
                   if found = [] then lastLienDate acc
                   else (case lastLienDate acc of
                           None \<Rightarrow> Some found
                         | Some l \<Rightarrow> if l = [] \<or> laterDate rt found l then Some found else Some l));
            urls' = foldl setAdd (matchingUrls acc) (itemUrls rt item)
        in \<lparr> lienTypes = types', lastLienDate = date', matchingUrls = urls',
             matchingCount = Suc (matchingCount acc) \<rparr>)"

text \<open>
  \<^verbatim>\<open>for (const item of hits)\<close> throws a \<^verbatim>\<open>TypeError\<close> when \<open>hits\<close> is not
  iterable; the outer \<^verbatim>\<open>catch\<close> turns it into the default summary.
\<close>

definition extractLienInfo :: "jsRuntime \<Rightarrow> jsval \<Rightarrow> string \<Rightarrow> lienInfo" where
  "extractLienInfo rt apiResponse searchName =
     (let hits = resolveHits apiResponse searchName in
      if noHits hits then emptyResult
      else
        (case spread hits of
           Inl err \<Rightarrow> emptyResult
         | Inr items \<Rightarrow>
             let acc = foldl (lienStep rt)
                         \<lparr> lienTypes = [], lastLienDate = None, matchingUrls = [], matchingCount = 0 \<rparr>
                         items
             in if matchingCount acc = 0 then emptyResult
                else \<lparr> lien_present = True, lien_types = lienTypes acc,
                       lien_count = matchingCount acc, last_lien_date = lastLienDate acc,
                       matching_doc_urls = map JStr (matchingUrls acc) \<rparr>))"

text \<open>A runtime for the examples: every date in them is 1 May 2023.\<close>

definition demoRuntime :: jsRuntime where
  "demoRuntime = \<lparr> matchIso = (\<lambda>s. if strIncludes s ''2023-05-01'' then Some ''2023-05-01'' else None),
     matchUS = (\<lambda>s. None), matchUrl = (\<lambda>s. None), laterDate = (\<lambda>a b. False),
     parseDate = (\<lambda>v. Some 1682899200000), isoDay = (\<lambda>t. ''2023-05-01'') \<rparr>"

section \<open>The statewide variant (\<^verbatim>\<open>texasfile_enrichment.js\<close>)\<close>

text \<open>
  The statewide script reads the hits from one path only and has no \<^verbatim>\<open>try\<close>
  around the extraction:
  \<^verbatim>\<open>
  function extractLienInfo(apiResponse) {
    const emptyResult = { lien_present: false, lien_types: [], lien_count: 0,
                          last_lien_date: null, matching_doc_urls: [] };
    if (!apiResponse?.response?.response?.data?.hits?.hits) { return emptyResult; }
    const records = apiResponse.response.response.data.hits.hits;
    if (!Array.isArray(records)) { return emptyResult; }
    const matchingRecords = records.filter(hit => {
      const source = hit._source;
      const docType = (source.type || source.county_type || source.document_type || '')
                        .toUpperCase();
      return LIEN_KEYWORDS.some(keyword => docType.includes(keyword));
    });
    if (matchingRecords.length === 0) { return emptyResult; }
    ...
    return { lien_present: true, lien_types: Array.from(lienTypes),
             lien_count: matchingRecords.length,
             last_lien_date: lastLienDate ? lastLienDate.toISOString().split('T')[0] : null,
             matching_doc_urls: Array.from(docUrls) };
  }
  \<close>
  so its model returns an exception or a summary. Its names carry the suffix \<open>_S\<close>.
  A property read of \<^verbatim>\<open>null\<close> or \<^verbatim>\<open>undefined\<close> and a method call on
  a value that has no such method are a \<^verbatim>\<open>TypeError\<close>;
  \<^verbatim>\<open>toISOString\<close> of an invalid date is a \<^verbatim>\<open>RangeError\<close>.
\<close>

definition docTypeOf :: "jsval \<Rightarrow> jserror + string" where
  "docTypeOf hit =
     (if isNullish hit then Inl TypeError
      else
        let source = getProp hit ''_source'' in
        if isNullish source then Inl TypeError
        else
          (case orElse (orElse (orElse (getProp source ''type'') (getProp source ''county_type''))
                  (getProp source ''document_type'')) (JStr []) of
             JStr s \<Rightarrow> Inr (toUpperCase s)
           | _ \<Rightarrow> Inl TypeError))"

definition isLienRecord :: "jsval \<Rightarrow> jserror + bool" where
  "isLienRecord hit =
     (case docTypeOf hit of
        Inl e \<Rightarrow> Inl e
      | Inr docType \<Rightarrow> Inr (list_ex (\<lambda>keyword. strIncludes docType keyword) LIEN_KEYWORDS))"

fun filterE :: "('a \<Rightarrow> jserror + bool) \<Rightarrow> 'a list \<Rightarrow> jserror + 'a list" where
  "filterE f [] = Inr []"
| "filterE f (x # xs) =
     (case f x of
        Inl e \<Rightarrow> Inl e
      | Inr b \<Rightarrow> (case filterE f xs of Inl e \<Rightarrow> Inl e | Inr ys \<Rightarrow> Inr (if b then x # ys else ys)))"

text \<open>
  A \<^verbatim>\<open>Set\<close> of arbitrary values: primitives are compared by value, objects by
  identity, and two objects read from different hits are never identical.
\<close>

definition isPrimitive :: "jsval \<Rightarrow> bool" where
  "isPrimitive v = (\<not> isObjectValue v)"

definition setAddJ :: "jsval list \<Rightarrow> jsval \<Rightarrow> jsval list" where
  "setAddJ s v = (if isPrimitive v \<and> v \<in> set s then s else s @ [v])"

definition toLowerCaseJ :: "jsval \<Rightarrow> jserror + jsval" where
  "toLowerCaseJ v = (case v of JStr s \<Rightarrow> Inr (JStr (toLowerCase s)) | _ \<Rightarrow> Inl TypeError)"

definition recordCounty :: "jsval \<Rightarrow> jserror + jsval" where
  "recordCounty record =
     (let c = getProp record ''county'';
          byName =
            (if isNullish c \<or> isNullish (getProp c ''name'') then Inr JUndefined
             else toLowerCaseJ (getProp c ''name''))
      in case byName of
           Inl e \<Rightarrow> Inl e
         | Inr n \<Rightarrow>
             if truthy n then Inr n
             else (case (if isNullish c then Inr JUndefined else toLowerCaseJ c) of
                     Inl e \<Rightarrow> Inl e
                   | Inr l \<Rightarrow> Inr (orElse l (JStr []))))"

text \<open>
  The state of the \<^verbatim>\<open>forEach\<close> over the matching records. \<open>lastLienDate_S\<close> is
  \<open>None\<close> for \<^verbatim>\<open>null\<close>, \<open>Some None\<close> for an invalid \<^verbatim>\<open>Date\<close> and
  \<open>Some (Some t)\<close> for a date with time value \<open>t\<close>; \<^verbatim>\<open>date > lastLienDate\<close> is
  false as soon as one side is invalid.
\<close>

record lienAcc_S =
  lienTypes_S :: "string list"
  docUrls_S :: "jsval list"
  lastLienDate_S :: "int option option"

definition laterThan :: "int option \<Rightarrow> int option \<Rightarrow> bool" where
  "laterThan a b = (case (a, b) of (Some x, Some y) \<Rightarrow> y < x | _ \<Rightarrow> False)"

definition lienStep_S :: "jsRuntime \<Rightarrow> lienAcc_S \<Rightarrow> jsval \<Rightarrow> jserror + lienAcc_S" where
  "lienStep_S rt acc hit =
     (case docTypeOf hit of
        Inl e \<Rightarrow> Inl e
      | Inr docType \<Rightarrow>
          let record = getProp hit ''_source'';
              types' = (if docType \<noteq> [] then setAdd (lienTypes_S acc) docType else lienTypes_S acc);
              dateStr = orElse (orElse (getProp record ''date_filed'') (getProp record ''date''))
                          (getProp record ''recorded_date'');
              date' =
                (if truthy dateStr
                 then (case lastLienDate_S acc of
                         None \<Rightarrow> Some (parseDate rt dateStr)
                       | Some l \<Rightarrow>
                           if laterThan (parseDate rt dateStr) l then Some (parseDate rt dateStr)
                           else Some l)
                 else lastLienDate_S acc)
          in if truthy (getProp record ''url'')
             then Inr \<lparr> lienTypes_S = types', docUrls_S = setAddJ (docUrls_S acc) (getProp record ''url''),
                        lastLienDate_S = date' \<rparr>
             else if truthy (getProp record ''document_id'')
             then (case recordCounty record of
                     Inl e \<Rightarrow> Inl e
                   | Inr cty \<Rightarrow>
                       Inr \<lparr> lienTypes_S = types',
                             docUrls_S =
                               (if truthy cty
                                then setAddJ (docUrls_S acc)
                                       (JStr (''https://www.texasfile.com/search/texas/'' @ toStr cty @
                                              ''/county-clerk-records/'' @
                                              toStr (getProp record ''document_id'') @ ''/''))
                                else docUrls_S acc),
                             lastLienDate_S = date' \<rparr>)
             else if truthy (getProp record ''number'')
             then Inr \<lparr> lienTypes_S = types',
                        docUrls_S = setAddJ (docUrls_S acc)
                          (JStr (''https://www.texasfile.com/document/'' @ toStr (getProp record ''number''))),
                        lastLienDate_S = date' \<rparr>
             else Inr \<lparr> lienTypes_S = types', docUrls_S = docUrls_S acc, lastLienDate_S = date' \<rparr>)"

fun foldE :: "('s \<Rightarrow> 'a \<Rightarrow> jserror + 's) \<Rightarrow> 's \<Rightarrow> 'a list \<Rightarrow> jserror + 's" where
  "foldE f s [] = Inr s"
| "foldE f s (x # xs) = (case f s x of Inl e \<Rightarrow> Inl e | Inr s' \<Rightarrow> foldE f s' xs)"

definition lienSummary_S :: "jsval list \<Rightarrow> lienAcc_S \<Rightarrow> string option \<Rightarrow> lienInfo" where
  "lienSummary_S matchingRecords acc day =
     \<lparr> lien_present = True, lien_types = lienTypes_S acc, lien_count = length matchingRecords,
       last_lien_date = day, matching_doc_urls = docUrls_S acc \<rparr>"

definition extractLienInfo_S :: "jsRuntime \<Rightarrow> jsval \<Rightarrow> jserror + lienInfo" where
  "extractLienInfo_S rt apiResponse =
     (let records = path apiResponse [''response'', ''response'', ''data'', ''hits'', ''hits''] in
      if \<not> truthy records then Inr emptyResult
      else case records of
        JArr hits \<Rightarrow>
          (case filterE isLienRecord hits of
             Inl e \<Rightarrow> Inl e
           | Inr matchingRecords \<Rightarrow>
               if matchingRecords = [] then Inr emptyResult
               else
                 (case foldE (lienStep_S rt)
                         \<lparr> lienTypes_S = [], docUrls_S = [], lastLienDate_S = None \<rparr> matchingRecords of
                    Inl e \<Rightarrow> Inl e
                  | Inr acc \<Rightarrow>
                      (case lastLienDate_S acc of
                         Some None \<Rightarrow> Inl RangeError
                       | Some (Some t) \<Rightarrow> Inr (lienSummary_S matchingRecords acc (Some (isoDay rt t)))
                       | None \<Rightarrow> Inr (lienSummary_S matchingRecords acc None))))
      | _ \<Rightarrow> Inr emptyResult)"

text \<open>
  The fetch of the statewide script:
  \<^verbatim>\<open>
  async function getTexasFileData(county, name, causeNumber, legalDesc) {
    const cacheKey = `${county}:${name}:${causeNumber}`;
    if (responseCache.has(cacheKey)) { return responseCache.get(cacheKey); }
    ...
    try {
      const countyName = county.replace(/\s*COUNTY\s*$/, '').trim().toLowerCase();
      const defendantName = name.split(' VS ')[1]?.trim() || name;
      ...
      await instance.get(...);
      const searchResponse = await instance.get(...);
      const records = searchResponse.data?.results || [];
      if (!records.length) { return null; }
      const details = records.map(record => ({ document_id: record.document_id, ... }));
      const formattedResponse = { response: { response: { data: { hits: {
          total: details.length,
          hits: details.map(record => ({ _source: { ...record,
                                                    county: { name: record.county_name } } }))
      } } } } };
      responseCache.set(cacheKey, formattedResponse);
      return formattedResponse;
    } catch (error) {
      if (error.response?.status === 429) {
        await setTimeout(REQUEST_DELAY_MS * 2);
        return getTexasFileData(county, name, causeNumber, legalDesc);
      }
      return null;
    }
  }
  \<close>
  \<open>stripCounty\<close> is \<^verbatim>\<open>replace(/\s*COUNTY\s*$/, '')\<close>: the text is cut at the leftmost
  position from which white space, \<^verbatim>\<open>COUNTY\<close> and white space reach the end.
  \<open>showNat\<close> is the decimal rendering of a length.
\<close>

definition countySuffix :: "string \<Rightarrow> bool" where
  "countySuffix t =
     (startsWith (dropWhile isSpace t) ''COUNTY'' \<and>
      dropWhile isSpace (drop 6 (dropWhile isSpace t)) = [])"

fun stripCounty :: "string \<Rightarrow> string" where
  "stripCounty [] = []"
| "stripCounty (c # cs) = (if countySuffix (c # cs) then [] else c # stripCounty cs)"

function showNat :: "nat \<Rightarrow> string" where
  "showNat n = (if n < 10 then [char_of (48 + n)] else showNat (n div 10) @ [char_of (48 + n mod 10)])"
  by pat_completeness auto
termination
  by (relation "measure id") auto

declare showNat.simps [simp del]

definition detailOf :: "string \<Rightarrow> jsval \<Rightarrow> jserror + jsval" where
  "detailOf countyName record =
     (if isNullish record then Inl TypeError
      else Inr (JObj
        [(''document_id'', getProp record ''document_id''),
         (''document_type'', getProp record ''document_type''),
         (''type'', getProp record ''document_type''),
         (''date_filed'', getProp record ''date_filed''),
         (''county_name'', JStr countyName),
         (''url'',
            if truthy (getProp record ''document_id'')
            then JStr (''https://www.texasfile.com/search/texas/'' @ countyName @
                       ''/county-clerk-records/'' @ toStr (getProp record ''document_id'') @ ''/'')
            else JNull)]))"

definition hitOf :: "jsval \<Rightarrow> jsval" where
  "hitOf detail =
     JObj [(''_source'',
       JObj [(''document_id'', getProp detail ''document_id''),
             (''document_type'', getProp detail ''document_type''),
             (''type'', getProp detail ''type''),
             (''date_filed'', getProp detail ''date_filed''),
             (''county_name'', getProp detail ''county_name''),
             (''url'', getProp detail ''url''),
             (''county'', JObj [(''name'', getProp detail ''county_name'')])])]"

definition formattedResponse :: "jsval list \<Rightarrow> jsval" where
  "formattedResponse details =
     JObj [(''response'', JObj [(''response'', JObj [(''data'', JObj [(''hits'',
       JObj [(''total'', JNum (showNat (length details))),
             (''hits'', JArr (map hitOf details))])])])])]"

text \<open>
  The state a run threads through its fetches: the cache (a \<^verbatim>\<open>Map\<close>, newest entry
  first), the number of attempts made so far and the delays waited, in order. The
  server is a function from the number of an attempt to what the two requests of
  that attempt yield: an exception, or the body of the search response. The model
  runs as long as the server asks it to: \<open>None\<close> is a fetch that never returns.
  A county or a name that is not a string makes \<^verbatim>\<open>county.replace\<close> or
  \<^verbatim>\<open>name.split\<close> throw inside the \<^verbatim>\<open>try\<close>, before any request; the exception has
  no \<^verbatim>\<open>response\<close>, so the fetch returns \<^verbatim>\<open>null\<close>.
\<close>

record fetchState =
  responseCache :: "(string \<times> jsval) list"
  attempts :: nat
  waits :: "nat list"

definition REQUEST_DELAY_MS :: nat where
  "REQUEST_DELAY_MS = 2000"

definition formatSearch :: "string \<Rightarrow> jsval \<Rightarrow> jserror + jsval option" where
  "formatSearch countyName data =
     (let records = orElse (getProp data ''results'') (JArr []) in
      if \<not> lengthTruthy records then Inr None
      else case arrayElems records of
             Inl e \<Rightarrow> Inl e
           | Inr rs \<Rightarrow>
               (case mapE (detailOf countyName) rs of
                  Inl e \<Rightarrow> Inl e
                | Inr details \<Rightarrow> Inr (Some (formattedResponse details))))"

partial_function (option) getTexasFileData_S ::
  "(nat \<Rightarrow> jserror + jsval) \<Rightarrow> jsval \<Rightarrow> jsval \<Rightarrow> jsval \<Rightarrow> fetchState \<Rightarrow> (jsval \<times> fetchState) option" where
  "getTexasFileData_S server cty name causeNumber st =
     (let cacheKey = toStr cty @ '':'' @ toStr name @ '':'' @ toStr causeNumber in
      case map_of (responseCache st) cacheKey of
        Some cached \<Rightarrow> Some (cached, st)
      | None \<Rightarrow>
         (case (cty, name) of
            (JStr c, JStr n) \<Rightarrow>
              (let countyName = toLowerCase (trim (stripCounty c));
                   st1 = st\<lparr> attempts := Suc (attempts st) \<rparr>
               in case server (attempts st) of
                    Inl err \<Rightarrow>
                      if errStatus err = Some 429
                      then getTexasFileData_S server cty name causeNumber
                             (st1\<lparr> waits := waits st1 @ [REQUEST_DELAY_MS * 2] \<rparr>)
                      else Some (JNull, st1)
                  | Inr data \<Rightarrow>
                      (case formatSearch countyName data of
                         Inr (Some formatted) \<Rightarrow>
                           Some (formatted,
                                 st1\<lparr> responseCache := (cacheKey, formatted) # responseCache st1 \<rparr>)
                       | _ \<Rightarrow> Some (JNull, st1)))
          | _ \<Rightarrow> Some (JNull, st)))"

declare getTexasFileData_S.simps [code]

text \<open>
  The loop over the rows of the input file. A row is what \<^verbatim>\<open>csv-parser\<close> yields: its
  columns, all strings.
  \<^verbatim>\<open>
  for (const row of records) {
    const apiData = await getTexasFileData(row.county, row.case_style,
                                           row.cause_number, row.legal_description);
    await setTimeout(REQUEST_DELAY_MS);
    const lienInfo = extractLienInfo(apiData?.records || []);
    results.push({ ...row, ...lienInfo });
  }
  \<close>
  An exception of \<^verbatim>\<open>extractLienInfo\<close> ends the run
  (\<^verbatim>\<open>processCSV().catch(console.error)\<close>).
\<close>

type_synonym csvRow = "(string \<times> string) list"

definition column :: "csvRow \<Rightarrow> string \<Rightarrow> jsval" where
  "column row k = (case map_of row k of Some s \<Rightarrow> JStr s | None \<Rightarrow> JUndefined)"

record enrichedRow_S =
  original_S :: csvRow
  lienInfo_S :: lienInfo

fun processRows_S ::
  "jsRuntime \<Rightarrow> (nat \<Rightarrow> jserror + jsval) \<Rightarrow> csvRow list \<Rightarrow> fetchState \<Rightarrow> enrichedRow_S list \<Rightarrow>
     ((jserror + enrichedRow_S list) \<times> fetchState) option" where
  "processRows_S rt server [] st results = Some (Inr results, st)"
| "processRows_S rt server (row # rows) st results =
     (case getTexasFileData_S server (column row ''county'') (column row ''case_style'')
             (column row ''cause_number'') st of
        None \<Rightarrow> None
      | Some (apiData, st1) \<Rightarrow>
          let st2 = st1\<lparr> waits := waits st1 @ [REQUEST_DELAY_MS] \<rparr> in
          (case extractLienInfo_S rt (orElse (getProp apiData ''records'') (JArr [])) of
             Inl e \<Rightarrow> Some (Inl e, st2)
           | Inr lienInfo \<Rightarrow>
               processRows_S rt server rows st2
                 (results @ [\<lparr> original_S = row, lienInfo_S = lienInfo \<rparr>])))"

definition processCSV_S ::
  "jsRuntime \<Rightarrow> (nat \<Rightarrow> jserror + jsval) \<Rightarrow> csvRow list \<Rightarrow> ((jserror + enrichedRow_S list) \<times> fetchState) option" where
  "processCSV_S rt server records =
     processRows_S rt server records \<lparr> responseCache = [], attempts = 0, waits = [] \<rparr> []"

section \<open>The retrying variant (\<^verbatim>\<open>processCSV\<close> of \<^verbatim>\<open>src/unnamed/part_000\<close>)\<close>

text \<open>
  The session-based script lets \<^verbatim>\<open>getTexasFileData\<close> throw and retries in the loop
  over the rows:
  \<^verbatim>\<open>
  for (const row of results) {
    try {
      const maxRetries = 2;
      let attempt = 0;
      let apiResponse = null;
      while (attempt <= maxRetries) {
        try {
          apiResponse = await getTexasFileData(row.County, row.Name);
          break;
        } catch (e) {
          attempt++;
          if (attempt > maxRetries) throw e;
          const backoff = 1000 * Math.pow(2, attempt);
          await setTimeout(backoff);
        }
      }
      if (apiResponse) {
        const lienInfo = extractLienInfo(apiResponse, row.Name);
        enrichedResults.push({ ...row, ...lienInfo });
      } else {
        enrichedResults.push({ ...row, lien_types: [], last_lien_date: null,
                               matching_doc_urls: [] });
      }
      await setTimeout(REQUEST_DELAY_MS);
    } catch (error) {
      enrichedResults.push({ ...row, lien_types: [], last_lien_date: null,
                             matching_doc_urls: [], error: error.message });
    }
  }
  \<close>
  The clerk's site is a function from the number of a call of
  \<^verbatim>\<open>getTexasFileData\<close> (counted over the whole run) to what that call does: it
  throws, or it returns a value. The state of a run is the number of calls made and
  the delays slept, in order.
\<close>

definition maxRetries :: nat where
  "maxRetries = 2"

record runState =
  calls :: nat
  slept :: "nat list"

function fetchWithRetry ::
  "(nat \<Rightarrow> jserror + jsval) \<Rightarrow> nat \<Rightarrow> runState \<Rightarrow> (jserror + jsval) \<times> runState" where
  "fetchWithRetry api attempt st =
     (if attempt \<le> maxRetries
      then (case api (calls st) of
              Inr apiResponse \<Rightarrow> (Inr apiResponse, st\<lparr> calls := Suc (calls st) \<rparr>)
            | Inl e \<Rightarrow>
                if maxRetries < Suc attempt then (Inl e, st\<lparr> calls := Suc (calls st) \<rparr>)
                else fetchWithRetry api (Suc attempt)
                       (st\<lparr> calls := Suc (calls st),
                            slept := slept st @ [1000 * 2 ^ Suc attempt] \<rparr>))
      else (Inr JNull, st))"
  by pat_completeness auto
termination
  by (relation "measure (\<lambda>(api, attempt, st). Suc maxRetries - attempt)") auto

declare fetchWithRetry.simps [simp del]

text \<open>
  An output row: the input row, the summary merged into it (\<open>None\<close> when the row is
  written with the three empty lien columns only) and the \<^verbatim>\<open>error\<close> column.
\<close>

record enrichedRow =
  original :: csvRow
  summary :: "lienInfo option"
  error :: "string option"

definition processRow ::
  "jsRuntime \<Rightarrow> (nat \<Rightarrow> jserror + jsval) \<Rightarrow> csvRow \<Rightarrow> runState \<Rightarrow> enrichedRow \<times> runState" where
  "processRow rt api row st =
     (case fetchWithRetry api 0 st of
        (Inr apiResponse, st1) \<Rightarrow>
          (if truthy apiResponse
           then \<lparr> original = row,
                  summary = Some (extractLienInfo rt apiResponse (toStr (column row ''Name''))),
                  error = None \<rparr>
           else \<lparr> original = row, summary = None, error = None \<rparr>,
           st1\<lparr> slept := slept st1 @ [REQUEST_DELAY_MS] \<rparr>)
      | (Inl e, st1) \<Rightarrow>
          (\<lparr> original = row, summary = None, error = Some (errMessage e) \<rparr>, st1))"

fun processRows ::
  "jsRuntime \<Rightarrow> (nat \<Rightarrow> jserror + jsval) \<Rightarrow> csvRow list \<Rightarrow> runState \<Rightarrow> enrichedRow list \<times> runState" where
  "processRows rt api [] st = ([], st)"
| "processRows rt api (row # rows) st =
     (let (out, st1) = processRow rt api row st;
          (outs, st2) = processRows rt api rows st1
      in (out # outs, st2))"

text \<open>
  The rows the \<^verbatim>\<open>data\<close> handler keeps: those with a county and a name, renamed to
  \<^verbatim>\<open>County\<close> and \<^verbatim>\<open>Name\<close>, up to \<^verbatim>\<open>TEST_LIMIT\<close> rows when it is set.
\<close>

definition setColumn :: "csvRow \<Rightarrow> string \<Rightarrow> string \<Rightarrow> csvRow" where
  "setColumn row k v =
     (if k \<in> fst ` set row then map (\<lambda>(k', v'). if k' = k then (k', v) else (k', v')) row
      else row @ [(k, v)])"

fun selectRows :: "nat option \<Rightarrow> csvRow list \<Rightarrow> csvRow list \<Rightarrow> csvRow list" where
  "selectRows limit [] results = results"
| "selectRows limit (row # rows) results =
     (let cty = orElse (column row ''County'') (column row ''county'');
          name = orElse (column row ''Name'') (column row ''case_style'')
      in if \<not> truthy cty \<or> \<not> truthy name then selectRows limit rows results
         else if (case limit of Some n \<Rightarrow> n \<le> length results | None \<Rightarrow> False)
              then selectRows limit rows results
         else selectRows limit rows
                (results @ [setColumn (setColumn row ''County'' (toStr cty)) ''Name'' (toStr name)]))"

definition processCSV ::
  "jsRuntime \<Rightarrow> nat option \<Rightarrow> (nat \<Rightarrow> jserror + jsval) \<Rightarrow> csvRow list \<Rightarrow> enrichedRow list \<times> runState" where
  "processCSV rt limit api input =
     processRows rt api (selectRows limit input []) \<lparr> calls = 0, slept = [] \<rparr>"

text \<open>Example servers and rows.\<close>

definition always429 :: "nat \<Rightarrow> jserror + jsval" where
  "always429 i = Inl (AxiosError (Some 429) ''Request failed with status code 429'')"

definition demoRows :: "csvRow list" where
  "demoRows = [[(''county'', ''ANDERSON COUNTY''), (''case_style'', ''CITY VS JOHN DOE'')],
               [(''uid'', ''5'')],
               [(''county'', ''BEE COUNTY''), (''case_style'', ''CITY VS JANE ROE'')]]"

definition serverError :: "nat \<Rightarrow> jserror + jsval" where
  "serverError i = Inl (AxiosError (Some 500) ''Request failed with status code 500'')"

definition demoSearch :: "nat \<Rightarrow> jserror + jsval" where
  "demoSearch i =
     (if i < 2 then Inl (AxiosError (Some 429) ''Request failed with status code 429'')
      else Inr (JObj [(''results'',
             JArr [JObj [(''document_id'', JNum ''77''), (''document_type'', JStr ''Tax Lien State''),
                         (''date_filed'', JStr ''2023-05-01'')]])]))"

definition demoRow :: csvRow where
  "demoRow = [(''county'', ''ANDERSON COUNTY''), (''case_style'', ''CITY VS JOHN DOE'')]"

definition initialFetchState :: fetchState where
  "initialFetchState = \<lparr> responseCache = [], attempts = 0, waits = [] \<rparr>"

definition initialRunState :: runState where
  "initialRunState = \<lparr> calls = 0, slept = [] \<rparr>"

definition demoNavigation :: jsval where
  "demoNavigation = JObj [(''data'', JObj [(''cities_list'', JArr [JStr ''Austin'', JStr ''Waco''])])]"

definition demoFormatted :: jsval where
  "demoFormatted = formattedResponse [JObj [(''document_id'', JNum ''77''),
                   (''document_type'', JStr ''Tax Lien State''), (''type'', JStr ''Tax Lien State''),
                   (''date_filed'', JStr ''2023-05-01''), (''county_name'', JStr ''anderson''),
                   (''url'', JStr ''https://www.texasfile.com/search/texas/anderson/county-clerk-records/77/'')]]"

text \<open>
  Vocabulary of the properties of the extraction: the token the name search looks
  for, "not a non-empty array", the one path the statewide script reads, and the
  invariant of its cache (no cached response has a \<^verbatim>\<open>records\<close> property).
\<close>

definition searchToken :: "string \<Rightarrow> string" where
  "searchToken searchName = (if firstToken searchName \<noteq> [] then firstToken searchName else searchName)"

definition noHitArray :: "jsval \<Rightarrow> bool" where
  "noHitArray v = (case v of JArr hits \<Rightarrow> hits = [] | _ \<Rightarrow> True)"

definition statewidePath :: "string list" where
  "statewidePath = [''response'', ''response'', ''data'', ''hits'', ''hits'']"

definition cacheOk :: "fetchState \<Rightarrow> bool" where
  "cacheOk st = list_all (\<lambda>(k, v). getProp v ''records'' = JUndefined) (responseCache st)"

chapter \<open>Properties\<close>

section \<open>Characters and text\<close>

lemma of_char_toUpperChar:
  "(of_char (toUpperChar c) :: nat) =
     (if 97 \<le> (of_char c :: nat) \<and> (of_char c :: nat) \<le> 122 then of_char c - 32 else of_char c)"
proof (cases "97 \<le> (of_char c :: nat) \<and> (of_char c :: nat) \<le> 122")
  case True
  then have "(of_char c :: nat) - 32 < 256" by arith
  then have "((of_char c :: nat) - 32) mod 256 = of_char c - 32" by (rule mod_less)
  with True show ?thesis by (simp add: toUpperChar_def Let_def)
next
  case False
  then show ?thesis by (auto simp add: toUpperChar_def Let_def)
qed

lemma char_eq_code: "c = d \<longleftrightarrow> (of_char c :: nat) = of_char d"
  by simp

lemma isSpace_code: "isSpace c \<longleftrightarrow> (of_char c :: nat) \<in> {32, 9, 10, 11, 12, 13}"
  unfolding isSpace_def by (simp add: char_eq_code [of c])

lemma toUpperChar_idem: "toUpperChar (toUpperChar c) = toUpperChar c"
proof -
  have "(of_char (toUpperChar (toUpperChar c)) :: nat) = of_char (toUpperChar c)"
    unfolding of_char_toUpperChar [of "toUpperChar c"] unfolding of_char_toUpperChar [of c]
    by (cases "97 \<le> (of_char c :: nat) \<and> (of_char c :: nat) \<le> 122") auto
  then show ?thesis by simp
qed

lemma isSpace_toUpperChar: "isSpace (toUpperChar c) = isSpace c"
  unfolding isSpace_code of_char_toUpperChar by (simp split: if_splits) arith

lemma isSpace_simps [simp]:
  "isSpace (CHR '' '')" "\<not> isSpace (CHR ''C'')" "\<not> isSpace (CHR ''Y'')" "\<not> isSpace (CHR '','')"
  "\<not> isSpace (CHR ''T'')" "\<not> isSpace (CHR ''X'')"
  by (simp_all add: isSpace_def)

lemma toUpperCase_idem: "toUpperCase (toUpperCase s) = toUpperCase s"
  by (simp add: toUpperCase_def toUpperChar_idem)

lemma dropWhile_id: "xs = [] \<or> \<not> P (hd xs) \<Longrightarrow> dropWhile P xs = xs"
  by (cases xs) auto

lemma last_dropWhile: "dropWhile P xs \<noteq> [] \<Longrightarrow> last (dropWhile P xs) = last xs"
  by (induction xs) (auto split: if_splits)

lemma endsWith_iff: "endsWith s suf \<longleftrightarrow> (\<exists>p. s = p @ suf)"
proof
  assume "endsWith s suf"
  then have "s = take (length s - length suf) s @ suf"
    by (metis append_take_drop_id endsWith_def)
  then show "\<exists>p. s = p @ suf" ..
next
  assume "\<exists>p. s = p @ suf"
  then show "endsWith s suf" by (auto simp: endsWith_def)
qed

section \<open>County names\<close>

subsection \<open>\<open>trim\<close>\<close>

lemma trimmed_trim: "trimmed (trim s)"
proof (cases "trim s = []")
  case True then show ?thesis by (simp add: trimmed_def)
next
  case False
  let ?a = "dropWhile isSpace s"
  let ?b = "dropWhile isSpace (rev ?a)"
  from False have b: "?b \<noteq> []" by (simp add: trim_def)
  then have hb: "\<not> isSpace (hd ?b)" by (rule hd_dropWhile)
  from b have "rev ?a \<noteq> []" by (metis dropWhile.simps(1))
  then have a: "?a \<noteq> []" by simp
  then have ha: "\<not> isSpace (hd ?a)" by (rule hd_dropWhile)
  from b have "last ?b = last (rev ?a)" by (rule last_dropWhile)
  with a have lb: "last ?b = hd ?a" by (simp add: last_rev)
  from b have "hd (trim s) = last ?b" "last (trim s) = hd ?b"
    by (simp_all add: trim_def hd_rev last_rev)
  with lb ha hb False show ?thesis by (simp add: trimmed_def)
qed

lemma trim_trimmed: "trimmed s \<Longrightarrow> trim s = s"
proof (cases "s = []")
  case True then show ?thesis by (simp add: trim_def)
next
  case False
  assume "trimmed s"
  with False have h: "\<not> isSpace (hd s)" and l: "\<not> isSpace (last s)" by (auto simp: trimmed_def)
  from h have 1: "dropWhile isSpace s = s" by (simp add: dropWhile_id)
  from False l have "\<not> isSpace (hd (rev s))" by (simp add: hd_rev)
  then have 2: "dropWhile isSpace (rev s) = rev s" by (simp add: dropWhile_id)
  show ?thesis by (simp add: trim_def 1 2)
qed

subsection \<open>\<open>collapseSpaces\<close>\<close>

lemma collapseSpaces_Nil_iff [simp]: "collapseSpaces s = [] \<longleftrightarrow> s = []"
  by (cases s) auto

lemma hd_collapseSpaces: "s \<noteq> [] \<Longrightarrow> \<not> isSpace (hd s) \<Longrightarrow> hd (collapseSpaces s) = hd s"
  by (cases s) auto

lemma isSpace_hd_collapseSpaces: "s \<noteq> [] \<Longrightarrow> isSpace (hd (collapseSpaces s)) = isSpace (hd s)"
  by (cases s) auto

lemma last_collapseSpaces:
  "s \<noteq> [] \<Longrightarrow> \<not> isSpace (last s) \<Longrightarrow> last (collapseSpaces s) = last s"
proof (induction s rule: collapseSpaces.induct)
  case 1 then show ?case by simp
next
  case (2 c cs)
  show ?case
  proof (cases "isSpace c")
    case True
    with 2 have ne: "dropWhile isSpace cs \<noteq> []" by (auto split: if_splits)
    then have "last (dropWhile isSpace cs) = last cs" by (rule last_dropWhile)
    with 2 True ne show ?thesis by (auto split: if_splits)
  next
    case False
    with 2 show ?thesis by (auto split: if_splits)
  qed
qed

lemma singleSpaced_Cons:
  "singleSpaced (c # s) \<longleftrightarrow>
     (isSpace c \<longrightarrow> c = CHR '' '' \<and> (s = [] \<or> \<not> isSpace (hd s))) \<and> singleSpaced s"
  by (cases s) auto

lemma singleSpaced_collapseSpaces: "singleSpaced (collapseSpaces s)"
proof (induction s rule: collapseSpaces.induct)
  case 1 then show ?case by simp
next
  case (2 c cs)
  show ?case
  proof (cases "isSpace c")
    case True
    show ?thesis
    proof (cases "dropWhile isSpace cs = []")
      case Nil: True
      have "collapseSpaces (c # cs) = '' ''" using True by (simp add: Nil)
      then show ?thesis by simp
    next
      case ne: False
      then have "\<not> isSpace (hd (dropWhile isSpace cs))" by (rule hd_dropWhile)
      with ne have "\<not> isSpace (hd (collapseSpaces (dropWhile isSpace cs)))"
        by (simp add: isSpace_hd_collapseSpaces)
      with 2 True show ?thesis by (simp add: singleSpaced_Cons)
    qed
  next
    case False
    with 2 show ?thesis by (simp add: singleSpaced_Cons)
  qed
qed

lemma collapseSpaces_singleSpaced: "singleSpaced s \<Longrightarrow> collapseSpaces s = s"
proof (induction s rule: singleSpaced.induct)
  case 1 then show ?case by simp
next
  case (2 c) then show ?case by simp
next
  case (3 c d cs) then show ?case by (auto simp: dropWhile_id)
qed

lemma singleSpaced_appendD: "singleSpaced (a @ b) \<Longrightarrow> singleSpaced a"
proof (induction a)
  case Nil then show ?case by simp
next
  case (Cons c a)
  then show ?case by (cases a) (auto simp: singleSpaced_Cons)
qed

lemma singleSpaced_append:
  "singleSpaced a \<Longrightarrow> singleSpaced b \<Longrightarrow> a \<noteq> [] \<Longrightarrow> \<not> isSpace (last a) \<Longrightarrow> singleSpaced (a @ b)"
proof (induction a)
  case Nil then show ?case by simp
next
  case (Cons c a)
  then show ?case by (cases a) (auto simp: singleSpaced_Cons)
qed

lemma isUpperCase_appendD: "isUpperCase (a @ b) \<Longrightarrow> isUpperCase a"
  by (simp add: isUpperCase_def toUpperCase_def)

lemma isUpperCase_collapseSpaces: "isUpperCase s \<Longrightarrow> isUpperCase (collapseSpaces s)"
proof (induction s rule: collapseSpaces.induct)
  case 1 then show ?case by simp
next
  case (2 c cs)
  have sp: "toUpperChar (CHR '' '') = CHR '' ''" by (simp add: toUpperChar_def)
  from 2(3) have c: "toUpperChar c = c" and cs: "isUpperCase cs"
    by (auto simp: isUpperCase_def toUpperCase_def)
  have "cs = takeWhile isSpace cs @ dropWhile isSpace cs" by simp
  with cs have "isUpperCase (dropWhile isSpace cs)"
    by (metis isUpperCase_def toUpperCase_def map_append append_eq_append_conv length_map)
  with 2 c cs sp show ?case by (auto simp: isUpperCase_def toUpperCase_def)
qed

subsection \<open>\<open>stripState\<close>\<close>

lemma stateSuffix_space: "isSpace c \<Longrightarrow> stateSuffix (c # t) = stateSuffix t"
  by (simp add: stateSuffix_def)

lemma stateSuffix_last:
  assumes "stateSuffix t"
  shows "t \<noteq> [] \<and> last t = CHR ''X''"
proof -
  from assms obtain r where d: "dropWhile isSpace t = CHR '','' # r" and r: "dropWhile isSpace r = ''TX''"
    by (auto simp: stateSuffix_def split: list.splits)
  from d have ne: "t \<noteq> []" by auto
  from r have rne: "r \<noteq> []" by auto
  from r have "last (dropWhile isSpace r) = last r" by (intro last_dropWhile) simp
  with r have lr: "last r = CHR ''X''" by simp
  from d have "last (dropWhile isSpace t) = last t" by (intro last_dropWhile) simp
  with d rne lr ne show ?thesis by simp
qed

lemma stripState_prefix: "\<exists>v. u = stripState u @ v"
  by (induction u) auto

lemma stripState_id: "u = [] \<or> last u \<noteq> CHR ''X'' \<Longrightarrow> stripState u = u"
proof (induction u)
  case Nil then show ?case by simp
next
  case (Cons c cs)
  then have "\<not> stateSuffix (c # cs)" using stateSuffix_last by blast
  with Cons show ?case by (auto split: if_splits)
qed

lemma hd_stripState: "stripState u \<noteq> [] \<Longrightarrow> hd (stripState u) = hd u"
  by (cases u) (auto split: if_splits)

lemma last_stripState:
  "\<not> isSpace (last u) \<Longrightarrow> stripState u \<noteq> [] \<Longrightarrow> \<not> isSpace (last (stripState u))"
proof (induction u)
  case Nil then show ?case by simp
next
  case (Cons c cs)
  then have ns: "\<not> stateSuffix (c # cs)" by (auto split: if_splits)
  show ?case
  proof (cases "stripState cs = []")
    case True
    have "\<not> isSpace c"
    proof (cases cs)
      case Nil with Cons.prems show ?thesis by simp
    next
      case (Cons d ds)
      with True have "stateSuffix cs" by (auto split: if_splits)
      with ns show ?thesis using stateSuffix_space by blast
    qed
    with ns True show ?thesis by simp
  next
    case False
    then have "cs \<noteq> []" by auto
    with Cons False ns show ?thesis by simp
  qed
qed

subsection \<open>The normal form\<close>

lemma endsWith_COUNTY_last: "endsWith s '' COUNTY'' \<Longrightarrow> s \<noteq> [] \<and> last s = CHR ''Y''"
  by (auto simp: endsWith_iff)

lemma singleSpaced_COUNTY: "singleSpaced '' COUNTY''"
  by (simp add: isSpace_def)

lemma isUpperCase_COUNTY: "isUpperCase '' COUNTY''"
  by (simp add: isUpperCase_def toUpperCase_def toUpperChar_def)

lemma normalizeCountyName_stem:
  "raw \<noteq> [] \<Longrightarrow> normalizeCountyName raw =
     (if endsWith (countyStem raw) '' COUNTY'' then countyStem raw else countyStem raw @ '' COUNTY'')"
  by (simp add: normalizeCountyName_def countyStem_def Let_def)

lemma stem_props:
  "isUpperCase (countyStem raw)" "singleSpaced (countyStem raw)"
  "countyStem raw \<noteq> [] \<Longrightarrow> \<not> isSpace (hd (countyStem raw)) \<and> \<not> isSpace (last (countyStem raw))"
proof -
  let ?t = "toUpperCase (trim raw)"
  let ?u = "collapseSpaces ?t"
  obtain v where v: "?u = countyStem raw @ v"
    using stripState_prefix [of ?u] by (auto simp: countyStem_def)
  have tt: "trimmed ?t"
    using trimmed_trim [of raw]
    by (cases "trim raw = []")
      (auto simp: trimmed_def toUpperCase_def hd_map last_map isSpace_toUpperChar)
  have "isUpperCase ?t" by (simp add: isUpperCase_def toUpperCase_idem)
  then have up: "isUpperCase ?u" by (rule isUpperCase_collapseSpaces)
  from up v show "isUpperCase (countyStem raw)" using isUpperCase_appendD by metis
  from v show "singleSpaced (countyStem raw)"
    using singleSpaced_collapseSpaces [of ?t] singleSpaced_appendD by metis
  assume ne: "countyStem raw \<noteq> []"
  then have une: "?u \<noteq> []" using v by auto
  then have tne: "?t \<noteq> []" by simp
  with tt have h: "\<not> isSpace (hd ?t)" and l: "\<not> isSpace (last ?t)" by (auto simp: trimmed_def)
  from tne h have "hd ?u = hd ?t" by (rule hd_collapseSpaces)
  moreover from tne l have "last ?u = last ?t" by (rule last_collapseSpaces)
  moreover from ne have "hd (countyStem raw) = hd ?u"
    unfolding countyStem_def by (rule hd_stripState)
  moreover have "\<not> isSpace (last ?u) \<Longrightarrow> \<not> isSpace (last (countyStem raw))"
    using ne last_stripState unfolding countyStem_def by blast
  ultimately show "\<not> isSpace (hd (countyStem raw)) \<and> \<not> isSpace (last (countyStem raw))"
    using h l by simp
qed

lemma normalizeCountyName_fixed:
  assumes "r \<noteq> []" "trimmed r" "isUpperCase r" "singleSpaced r" "endsWith r '' COUNTY''"
  shows "normalizeCountyName r = r"
proof -
  from assms(2) have 1: "trim r = r" by (rule trim_trimmed)
  from assms(3) have 2: "toUpperCase r = r" by (simp add: isUpperCase_def)
  from assms(4) have 3: "collapseSpaces r = r" by (rule collapseSpaces_singleSpaced)
  from assms(5) have "last r = CHR ''Y''" using endsWith_COUNTY_last by blast
  then have 4: "stripState r = r" by (simp add: stripState_id)
  from assms(1,5) show ?thesis by (simp add: normalizeCountyName_def 1 2 3 4)
qed

text \<open>
  Claim C4, as amended. The guard \<^verbatim>\<open>if (!raw) return ''\<close> maps the empty string to
  the empty string, which does not end with \<^verbatim>\<open>" COUNTY"\<close>. For every non-empty input
  the output is uppercase, single-spaced, does not end with \<^verbatim>\<open>", TX"\<close> and ends
  with \<^verbatim>\<open>" COUNTY"\<close>. Normalizing twice equals normalizing once whenever the first
  output is not the bare suffix \<^verbatim>\<open>" COUNTY"\<close>, that is, whenever some name is left
  once the input is trimmed and the state suffix is cut.
\<close>

theorem normalizeCountyName_post:
  "normalizeCountyName [] = [] \<and>
   (raw \<noteq> [] \<longrightarrow>
      isUpperCase (normalizeCountyName raw) \<and> singleSpaced (normalizeCountyName raw) \<and>
      \<not> endsWith (normalizeCountyName raw) '', TX'' \<and>
      endsWith (normalizeCountyName raw) '' COUNTY'') \<and>
   (normalizeCountyName raw \<noteq> '' COUNTY'' \<longrightarrow>
      normalizeCountyName (normalizeCountyName raw) = normalizeCountyName raw)"
proof (cases "raw = []")
  case True
  then show ?thesis by (simp add: normalizeCountyName_def)
next
  case False
  let ?w = "countyStem raw"
  let ?r = "normalizeCountyName raw"
  note r = normalizeCountyName_stem [OF False]
  have e: "endsWith ?r '' COUNTY''" by (auto simp: r endsWith_iff)
  then have ly: "?r \<noteq> [] \<and> last ?r = CHR ''Y''" by (rule endsWith_COUNTY_last)
  have ntx: "\<not> endsWith ?r '', TX''"
  proof
    assume "endsWith ?r '', TX''"
    then have "last ?r = CHR ''X''" by (auto simp: endsWith_iff)
    with ly show False by simp
  qed
  have wne: "?w \<noteq> [] \<Longrightarrow> \<not> isSpace (hd ?w) \<and> \<not> isSpace (last ?w)" by (rule stem_props(3))
  have up: "isUpperCase ?r"
    using stem_props(1) [of raw] isUpperCase_COUNTY
    by (auto simp: r isUpperCase_def toUpperCase_def)
  have ss: "singleSpaced ?r"
  proof (cases "?w = []")
    case True
    then have "?r = '' COUNTY''" by (simp add: r endsWith_def)
    then show ?thesis by (simp only: singleSpaced_COUNTY)
  next
    case False
    with wne have "\<not> isSpace (last ?w)" by simp
    with False have "singleSpaced (?w @ '' COUNTY'')"
      by (intro singleSpaced_append stem_props(2) singleSpaced_COUNTY)
    then show ?thesis using stem_props(2) [of raw] by (simp add: r)
  qed
  have "normalizeCountyName ?r = ?r" if ne: "?r \<noteq> '' COUNTY''"
  proof -
    have w: "?w \<noteq> []"
    proof
      assume "?w = []"
      then have "?r = '' COUNTY''" by (simp add: r endsWith_def)
      with ne show False by simp
    qed
    with wne have h: "\<not> isSpace (hd ?w)" by simp
    have "hd ?r = hd ?w" using w by (simp add: r)
    with h ly have "trimmed ?r" by (simp add: trimmed_def)
    with ly up ss e show ?thesis by (intro normalizeCountyName_fixed) simp_all
  qed
  with False up ss ntx e show ?thesis by (simp add: normalizeCountyName_def)
qed

text \<open>
  The amended claim at \<^verbatim>\<open>"travis, tx"\<close>, the example of the specification: the
  output is \<^verbatim>\<open>"TRAVIS COUNTY"\<close> and normalizing it again changes nothing.
\<close>

theorem normalizeCountyName_post_witness:
  "''travis, tx'' \<noteq> [] \<and>
   normalizeCountyName ''travis, tx'' = ''TRAVIS COUNTY'' \<and>
   normalizeCountyName ''travis, tx'' \<noteq> '' COUNTY'' \<and>
   endsWith (normalizeCountyName ''travis, tx'') '' COUNTY'' \<and>
   normalizeCountyName (normalizeCountyName ''travis, tx'') = normalizeCountyName ''travis, tx''"
proof -
  have e: "normalizeCountyName ''travis, tx'' = ''TRAVIS COUNTY''" by code_simp
  have h1: "''travis, tx'' \<noteq> []" by simp
  have h2: "normalizeCountyName ''travis, tx'' \<noteq> '' COUNTY''" by (simp add: e)
  from normalizeCountyName_post [of "''travis, tx''"] h1 h2 e show ?thesis by simp
qed

text \<open>
  Claim C4 as stated fails at the empty string: the output is empty and so does not
  end with \<^verbatim>\<open>" COUNTY"\<close>.
\<close>

theorem normalizeCountyName_empty_counterexample:
  "\<not> endsWith (normalizeCountyName []) '' COUNTY''"
  by (simp add: normalizeCountyName_def endsWith_def)

section \<open>Vacancy\<close>

lemma startsWith_iff: "startsWith s t \<longleftrightarrow> (\<exists>b. s = t @ b)"
proof
  assume "startsWith s t"
  then have "s = t @ drop (length t) s" by (metis append_take_drop_id startsWith_def)
  then show "\<exists>b. s = t @ b" ..
next
  assume "\<exists>b. s = t @ b"
  then show "startsWith s t" by (auto simp: startsWith_def)
qed

lemma strIncludes_iff: "strIncludes s t \<longleftrightarrow> (\<exists>a b. s = a @ t @ b)"
proof (induction s)
  case Nil
  then show ?case by auto
next
  case (Cons c cs)
  show ?case
  proof
    assume "strIncludes (c # cs) t"
    then consider "startsWith (c # cs) t" | "strIncludes cs t" by auto
    then show "\<exists>a b. c # cs = a @ t @ b"
    proof cases
      case 1
      then obtain b where "c # cs = [] @ t @ b" by (auto simp: startsWith_iff)
      then show ?thesis by blast
    next
      case 2
      with Cons obtain a b where "cs = a @ t @ b" by auto
      then have "c # cs = (c # a) @ t @ b" by simp
      then show ?thesis by blast
    qed
  next
    assume "\<exists>a b. c # cs = a @ t @ b"
    then obtain a b where ab: "c # cs = a @ t @ b" by auto
    show "strIncludes (c # cs) t"
    proof (cases a)
      case Nil
      with ab have "startsWith (c # cs) t" by (auto simp: startsWith_iff)
      then show ?thesis by simp
    next
      case (Cons a0 as)
      with ab have "cs = as @ t @ b" by simp
      with Cons.IH show ?thesis by auto
    qed
  qed
qed

lemma strIncludes_appendI:
  "strIncludes a t \<or> strIncludes b t \<Longrightarrow> strIncludes (a @ b) t"
  unfolding strIncludes_iff
  by (metis append.assoc)

lemma strIncludes_trans: "strIncludes s t \<Longrightarrow> strIncludes t u \<Longrightarrow> strIncludes s u"
  unfolding strIncludes_iff by (metis append.assoc)

lemma strIncludes_sep:
  assumes "strIncludes (a @ [c] @ b) k" and "c \<notin> set k"
  shows "strIncludes a k \<or> strIncludes b k"
proof -
  from assms(1) obtain x y where e: "a @ c # b = x @ k @ y" by (auto simp: strIncludes_iff)
  then consider us where "a = x @ us" "us @ c # b = k @ y" | us where "a @ us = x" "c # b = us @ k @ y"
    by (auto simp: append_eq_append_conv2)
  then show ?thesis
  proof cases
    case 1
    from 1(2) consider vs where "us = k @ vs" | vs where "us @ vs = k" "c # b = vs @ y"
      by (auto simp: append_eq_append_conv2)
    then show ?thesis
    proof cases
      case 1
      with \<open>a = x @ us\<close> have "a = x @ k @ vs" by simp
      then show ?thesis unfolding strIncludes_iff by blast
    next
      case 2
      show ?thesis
      proof (cases vs)
        case Nil
        with 2 \<open>a = x @ us\<close> have "a = x @ k @ []" by simp
        then show ?thesis unfolding strIncludes_iff by blast
      next
        case (Cons v vs')
        with 2 have "c \<in> set k" by auto
        with assms(2) show ?thesis by simp
      qed
    qed
  next
    case 2
    show ?thesis
    proof (cases us)
      case Nil
      with 2 have "c # b = k @ y" by simp
      with assms(2) have "k = []" by (cases k) auto
      then show ?thesis unfolding strIncludes_iff by auto
    next
      case (Cons u us')
      with 2 have "b = us' @ k @ y" by simp
      then show ?thesis unfolding strIncludes_iff by blast
    qed
  qed
qed

lemma toUpperCase_append: "toUpperCase (a @ b) = toUpperCase a @ toUpperCase b"
  by (simp add: toUpperCase_def)

lemma toUpperCase_space: "toUpperCase '' '' = '' ''"
  by (simp add: toUpperCase_def toUpperChar_def)

lemma VACANT_in_VACANT_LOT: "strIncludes ''VACANT LOT'' ''VACANT''"
  by (simp add: startsWith_def)

lemma LOT_in_VACANT_LOT: "strIncludes ''VACANT LOT'' ''LOT''"
  by (simp add: startsWith_def)

lemma detectVacancyScan_None:
  "\<forall>k\<in>set ks. \<not> strIncludes uL k \<and> \<not> strIncludes uN k \<Longrightarrow> detectVacancyScan uL uN ks = None"
  by (induction ks) auto

lemma vacancyKeywords_no_space: "\<forall>k\<in>set vacancyKeywords. CHR '' '' \<notin> set k"
  by (simp add: vacancyKeywords_def)

text \<open>
  Claim C7, as amended. In \<^verbatim>\<open>lgb-scrape-NoMetro.js\<close>: when the combined upper-cased
  text contains \<^verbatim>\<open>VACANT LOT\<close>, \<open>isVacantLot\<close> is true; when the legal description
  or the sale notes contain it, \<open>detectVacancy\<close> reports the keyword \<^verbatim>\<open>VACANT\<close>, the
  first of the scan order, with the text it was found in; when neither text contains
  a keyword of the fixed set, \<open>isVacantLot\<close> is false and \<open>detectVacancy\<close> returns
  \<^verbatim>\<open>null\<close>. In the second script \<open>isVacantLot_B\<close> looks at the legal description
  only: it is true when the legal description contains \<^verbatim>\<open>VACANT LOT\<close>, and false
  when the legal description contains none of its six terms and the address is not
  blank.
\<close>

theorem vacancy_classification:
  "(strIncludes (toUpperCase (legal @ '' '' @ other)) ''VACANT LOT'' \<longrightarrow> isVacantLot legal other) \<and>
   (strIncludes (toUpperCase legal) ''VACANT LOT'' \<or> strIncludes (toUpperCase other) ''VACANT LOT'' \<longrightarrow>
      detectVacancy legal other =
        Some (''VACANT'', if strIncludes (toUpperCase legal) ''VACANT'' then ''legalDesc'' else ''saleNotes'')) \<and>
   ((\<forall>k\<in>set vacancyKeywords.
        \<not> strIncludes (toUpperCase legal) k \<and> \<not> strIncludes (toUpperCase other) k) \<longrightarrow>
      \<not> isVacantLot legal other \<and> detectVacancy legal other = None) \<and>
   (strIncludes (toUpperCase legal) ''VACANT LOT'' \<longrightarrow> isVacantLot_B legal other) \<and>
   ((\<forall>t\<in>set vacantTerms_B. \<not> strIncludes (toUpperCase legal) t) \<and> trim other \<noteq> [] \<longrightarrow>
      \<not> isVacantLot_B legal other)"
proof -
  have A: "isVacantLot legal other"
    if "strIncludes (toUpperCase (legal @ '' '' @ other)) ''VACANT LOT''"
  proof -
    from that have "strIncludes (toUpperCase (legal @ '' '' @ other)) ''VACANT''"
      using VACANT_in_VACANT_LOT by (rule strIncludes_trans)
    then show ?thesis by (simp add: isVacantLot_def vacancyKeywords_def)
  qed
  have B: "detectVacancy legal other =
      Some (''VACANT'', if strIncludes (toUpperCase legal) ''VACANT'' then ''legalDesc'' else ''saleNotes'')"
    if "strIncludes (toUpperCase legal) ''VACANT LOT'' \<or> strIncludes (toUpperCase other) ''VACANT LOT''"
  proof -
    from that
    have "strIncludes (toUpperCase legal) ''VACANT'' \<or> strIncludes (toUpperCase other) ''VACANT''"
      using VACANT_in_VACANT_LOT strIncludes_trans by blast
    then show ?thesis by (auto simp: detectVacancy_def vacancyKeywords_def)
  qed
  have C: "\<not> isVacantLot legal other \<and> detectVacancy legal other = None"
    if h: "\<forall>k\<in>set vacancyKeywords.
        \<not> strIncludes (toUpperCase legal) k \<and> \<not> strIncludes (toUpperCase other) k"
  proof -
    have "\<not> strIncludes (toUpperCase (legal @ '' '' @ other)) k" if k: "k \<in> set vacancyKeywords" for k
    proof
      assume "strIncludes (toUpperCase (legal @ '' '' @ other)) k"
      moreover have "toUpperCase (legal @ '' '' @ other) =
          toUpperCase legal @ [CHR '' ''] @ toUpperCase other"
        by (simp add: toUpperCase_def toUpperChar_def)
      ultimately have "strIncludes (toUpperCase legal @ [CHR '' ''] @ toUpperCase other) k"
        by simp
      moreover from k have "CHR '' '' \<notin> set k" using vacancyKeywords_no_space by blast
      ultimately have "strIncludes (toUpperCase legal) k \<or> strIncludes (toUpperCase other) k"
        by (rule strIncludes_sep)
      with h k show False by blast
    qed
    then have "\<not> isVacantLot legal other"
      by (auto simp: isVacantLot_def list_ex_iff)
    moreover from h have "detectVacancy legal other = None"
      unfolding detectVacancy_def by (rule detectVacancyScan_None)
    ultimately show ?thesis ..
  qed
  have D: "isVacantLot_B legal other" if "strIncludes (toUpperCase legal) ''VACANT LOT''"
  proof -
    from that have "strIncludes (toUpperCase legal) ''LOT''"
      using LOT_in_VACANT_LOT by (rule strIncludes_trans)
    then show ?thesis by (simp add: isVacantLot_B_def vacantTerms_B_def)
  qed
  have E: "\<not> isVacantLot_B legal other"
    if "(\<forall>t\<in>set vacantTerms_B. \<not> strIncludes (toUpperCase legal) t) \<and> trim other \<noteq> []"
  proof -
    from that have "other \<noteq> []" by (auto simp: trim_def)
    with that show ?thesis by (auto simp: isVacantLot_B_def list_ex_iff)
  qed
  from A B C D E show ?thesis by blast
qed

text \<open>
  The amended claim at two concrete pairs of texts.
\<close>

theorem vacancy_classification_witness:
  "strIncludes (toUpperCase (''Vacant lot 7'' @ '' '' @ ''Main St'')) ''VACANT LOT'' \<and>
   isVacantLot ''Vacant lot 7'' ''Main St'' \<and>
   detectVacancy ''Vacant lot 7'' ''Main St'' = Some (''VACANT'', ''legalDesc'') \<and>
   isVacantLot_B ''Vacant lot 7'' ''Main St'' \<and>
   list_all (\<lambda>k. \<not> strIncludes (toUpperCase ''Old house'') k \<and>
                 \<not> strIncludes (toUpperCase ''Main St'') k) vacancyKeywords \<and>
   list_all (\<lambda>t. \<not> strIncludes (toUpperCase ''Old house'') t) vacantTerms_B \<and>
   trim ''Main St'' \<noteq> [] \<and>
   \<not> isVacantLot ''Old house'' ''Main St'' \<and> detectVacancy ''Old house'' ''Main St'' = None \<and>
   \<not> isVacantLot_B ''Old house'' ''Main St''"
proof -
  have h1: "strIncludes (toUpperCase (''Vacant lot 7'' @ '' '' @ ''Main St'')) ''VACANT LOT''"
    by code_simp
  have h2: "strIncludes (toUpperCase ''Vacant lot 7'') ''VACANT LOT''" by code_simp
  have h2': "strIncludes (toUpperCase ''Vacant lot 7'') ''VACANT''" by code_simp
  have h3: "list_all (\<lambda>k. \<not> strIncludes (toUpperCase ''Old house'') k \<and>
                 \<not> strIncludes (toUpperCase ''Main St'') k) vacancyKeywords"
    by code_simp
  have h4: "list_all (\<lambda>t. \<not> strIncludes (toUpperCase ''Old house'') t) vacantTerms_B" by code_simp
  have h5: "trim ''Main St'' \<noteq> []" by code_simp
  from vacancy_classification [of "''Vacant lot 7''" "''Main St''"] h1 h2 h2'
  have a: "isVacantLot ''Vacant lot 7'' ''Main St'' \<and>
   detectVacancy ''Vacant lot 7'' ''Main St'' = Some (''VACANT'', ''legalDesc'') \<and>
   isVacantLot_B ''Vacant lot 7'' ''Main St''" by simp
  from vacancy_classification [of "''Old house''" "''Main St''"] h3 h4 h5
  have b: "\<not> isVacantLot ''Old house'' ''Main St'' \<and> detectVacancy ''Old house'' ''Main St'' = None \<and>
   \<not> isVacantLot_B ''Old house'' ''Main St''" unfolding list_all_iff by blast
  from a b h1 h3 h4 h5 show ?thesis by blast
qed

text \<open>
  Claim C7 as stated fails for the second script. The texts \<^verbatim>\<open>"Old house"\<close> and
  \<^verbatim>\<open>""\<close> contain no keyword of the fixed set, yet \<open>isVacantLot_B\<close> classifies them
  as vacant (no address, some legal description); and an address \<^verbatim>\<open>"VACANT LOT"\<close>
  with an empty legal description is classified as not vacant.
\<close>

theorem vacancy_classification_counterexample:
  "list_all (\<lambda>k. \<not> strIncludes (toUpperCase ''Old house'') k \<and> \<not> strIncludes (toUpperCase []) k)
     vacancyKeywords \<and>
   isVacantLot_B ''Old house'' [] \<and>
   strIncludes (toUpperCase ''VACANT LOT'') ''VACANT LOT'' \<and> \<not> isVacantLot_B [] ''VACANT LOT''"
  by code_simp

section \<open>Address resolution and the orchestrator\<close>

lemma processProperty_address:
  assumes "processProperty env cty p = Pushed r"
  shows "(address r, address_source r) =
           resolveAddress (uidMapOf env cty) (detailsOf env (getProp p ''uid'')) p cty \<and> county r = cty"
  using assms
  by (auto simp: processProperty_def Let_def split: if_splits sum.splits bool.splits option.splits prod.splits)

lemma processProperty_B_address:
  assumes "processProperty_B env cty p = Pushed r"
  shows "(address r, address_source r) =
           resolveAddress (uidMapOf env cty) (detailsOf env (getProp p ''uid'')) p cty \<and> county r = cty"
  using assms
  by (auto simp: processProperty_B_def Let_def split: if_splits sum.splits bool.splits option.splits prod.splits)

lemma resolveAddress_api_list:
  "uidMap (toStr (orElse (getProp p ''uid'') (JStr []))) = Some a \<Longrightarrow> a \<noteq> [] \<Longrightarrow>
   resolveAddress uidMap details p cty = (a, ''api_list'')"
  by (simp add: resolveAddress_def lookupNonEmpty_def)

lemma resolveAddress_source:
  "snd (resolveAddress uidMap details p cty) \<in> set addressSources"
  by (simp add: resolveAddress_def addressSources_def Let_def split: option.splits)

lemma resolveAddress_approximated:
  "(snd (resolveAddress uidMap details p cty) = ''approximated'') =
     (\<not> fetchedAddressAvailable uidMap details p)"
  "snd (resolveAddress uidMap details p cty) = ''approximated'' \<Longrightarrow>
     fst (resolveAddress uidMap details p cty) = cty @ '' (address missing)''"
  by (auto simp: resolveAddress_def fetchedAddressAvailable_def Let_def split: option.splits if_splits)

lemma processProps_inv:
  assumes "\<And>p r. body p = Pushed r \<Longrightarrow> P r"
  shows "\<forall>r\<in>set results. P r \<Longrightarrow> \<forall>r\<in>set (processProps body limit ps results). P r"
proof (induction ps arbitrary: results)
  case Nil
  then show ?case by simp
next
  case (Cons p ps)
  show ?case
  proof (cases "body p")
    case (Threw e)
    with Cons.prems show ?thesis by simp
  next
    case Skipped
    with Cons show ?thesis by simp
  next
    case (Pushed r)
    with assms have "P r" by blast
    with Cons.prems have "\<forall>x\<in>set (results @ [r]). P x" by simp
    with Cons.IH have "\<forall>x\<in>set (processProps body limit ps (results @ [r])). P x" by blast
    with Pushed \<open>\<forall>x\<in>set (results @ [r]). P x\<close> show ?thesis by simp
  qed
qed

lemma processCounties_inv:
  assumes "\<And>c p r. body c p = Pushed r \<Longrightarrow> P r"
  shows "\<forall>r\<in>set results. P r \<Longrightarrow> \<forall>r\<in>set (processCounties body props limit cs results). P r"
proof (induction cs arbitrary: results)
  case Nil
  then show ?case by simp
next
  case (Cons c cs)
  let ?res = "case props c of Inl e \<Rightarrow> results | Inr ps \<Rightarrow> processProps (body c) limit ps results"
  have "\<forall>r\<in>set ?res. P r"
  proof (cases "props c")
    case (Inl e)
    with Cons.prems show ?thesis by simp
  next
    case (Inr ps)
    have "\<forall>r\<in>set (processProps (body c) limit ps results). P r"
      using assms Cons.prems by (intro processProps_inv) blast+
    with Inr show ?thesis by simp
  qed
  with Cons.IH [of ?res] show ?case by (simp add: Let_def)
qed

lemma processProperty_sourceOk: "processProperty env cty p = Pushed r \<Longrightarrow> sourceOk r"
proof -
  assume "processProperty env cty p = Pushed r"
  from processProperty_address [OF this]
  have e: "resolveAddress (uidMapOf env cty) (detailsOf env (getProp p ''uid'')) p cty =
      (address r, address_source r)" and c: "county r = cty" by simp_all
  from resolveAddress_source [of "uidMapOf env cty" "detailsOf env (getProp p ''uid'')" p cty]
    resolveAddress_approximated(2) [of "uidMapOf env cty" "detailsOf env (getProp p ''uid'')" p cty]
  show ?thesis by (simp add: e c sourceOk_def)
qed

lemma processProperty_B_sourceOk: "processProperty_B env cty p = Pushed r \<Longrightarrow> sourceOk r"
proof -
  assume "processProperty_B env cty p = Pushed r"
  from processProperty_B_address [OF this]
  have e: "resolveAddress (uidMapOf env cty) (detailsOf env (getProp p ''uid'')) p cty =
      (address r, address_source r)" and c: "county r = cty" by simp_all
  from resolveAddress_source [of "uidMapOf env cty" "detailsOf env (getProp p ''uid'')" p cty]
    resolveAddress_approximated(2) [of "uidMapOf env cty" "detailsOf env (getProp p ''uid'')" p cty]
  show ?thesis by (simp add: e c sourceOk_def)
qed

lemma main_sourceOk: "main env = Some rs \<Longrightarrow> \<forall>r\<in>set rs. sourceOk r"
proof -
  assume m: "main env = Some rs"
  let ?res = "processCounties (processProperty env) (propsOf env) (testLimit env) (counties env) []"
  have "\<forall>r\<in>set ?res. sourceOk r"
    by (rule processCounties_inv [where P = sourceOk]) (auto dest: processProperty_sourceOk)
  moreover from m have "rs = sortResults env ?res"
    by (auto simp: main_def Let_def split: if_splits)
  ultimately show ?thesis by (simp add: sortResults_def)
qed

lemma main_B_sourceOk: "main_B env = Some rs \<Longrightarrow> \<forall>r\<in>set rs. sourceOk r"
proof -
  assume m: "main_B env = Some rs"
  let ?res = "processCounties (processProperty_B env) (propsOf env) (testLimit env) (counties env) []"
  have "\<forall>r\<in>set ?res. sourceOk r"
    by (rule processCounties_inv [where P = sourceOk]) (auto dest: processProperty_B_sourceOk)
  moreover from m have "rs = sortResults env ?res"
    by (auto simp: main_B_def Let_def split: if_splits)
  ultimately show ?thesis by (simp add: sortResults_def)
qed

text \<open>
  Claim C1. When the bulk map of the county holds a non-empty address for the UID of a
  listing, the address resolution yields that address with the tag \<^verbatim>\<open>api_list\<close>,
  whatever the detail record and the listing row hold, and so does every record that
  either script pushes for the listing.
\<close>

theorem address_precedence:
  assumes "uidMapOf env cty (toStr (orElse (getProp p ''uid'') (JStr []))) = Some a" and "a \<noteq> []"
  shows "resolveAddress (uidMapOf env cty) details p cty = (a, ''api_list'') \<and>
         (\<forall>r. processProperty env cty p = Pushed r \<longrightarrow> address r = a \<and> address_source r = ''api_list'') \<and>
         (\<forall>r. processProperty_B env cty p = Pushed r \<longrightarrow> address r = a \<and> address_source r = ''api_list'')"
proof -
  have r: "resolveAddress (uidMapOf env cty) ds p cty = (a, ''api_list'')" for ds
    using assms by (rule resolveAddress_api_list)
  have "address r = a \<and> address_source r = ''api_list''" if "processProperty env cty p = Pushed r" for r
    using processProperty_address [OF that] by (simp add: r)
  moreover
  have "address r = a \<and> address_source r = ''api_list''" if "processProperty_B env cty p = Pushed r" for r
    using processProperty_B_address [OF that] by (simp add: r)
  ultimately show ?thesis using r by blast
qed

text \<open>
  Claim C2. Every record that \<open>main\<close> writes, in either script, carries one of the
  four tags, and a record tagged \<^verbatim>\<open>approximated\<close> carries the synthetic address
  \<^verbatim>\<open>{county} (address missing)\<close>; a pushed record is tagged \<^verbatim>\<open>approximated\<close> if and
  only if no fetched source holds an address, which is when the synthetic address is
  used.
\<close>

theorem address_source_invariant:
  "(\<forall>rs. main env = Some rs \<longrightarrow>
      (\<forall>r\<in>set rs. address_source r \<in> set addressSources \<and>
         (address_source r = ''approximated'' \<longrightarrow> address r = county r @ '' (address missing)''))) \<and>
   (\<forall>rs. main_B env = Some rs \<longrightarrow>
      (\<forall>r\<in>set rs. address_source r \<in> set addressSources \<and>
         (address_source r = ''approximated'' \<longrightarrow> address r = county r @ '' (address missing)''))) \<and>
   (\<forall>r. processProperty env cty p = Pushed r \<longrightarrow>
      (address_source r = ''approximated'') =
        (\<not> fetchedAddressAvailable (uidMapOf env cty) (detailsOf env (getProp p ''uid'')) p)) \<and>
   (\<forall>r. processProperty_B env cty p = Pushed r \<longrightarrow>
      (address_source r = ''approximated'') =
        (\<not> fetchedAddressAvailable (uidMapOf env cty) (detailsOf env (getProp p ''uid'')) p))"
proof -
  have 1: "\<forall>r\<in>set rs. sourceOk r" if "main env = Some rs" for rs
    using that by (rule main_sourceOk)
  have 2: "\<forall>r\<in>set rs. sourceOk r" if "main_B env = Some rs" for rs
    using that by (rule main_B_sourceOk)
  have 3: "(address_source r = ''approximated'') =
        (\<not> fetchedAddressAvailable (uidMapOf env cty) (detailsOf env (getProp p ''uid'')) p)"
    if "processProperty env cty p = Pushed r" for r
    using processProperty_address [OF that]
      resolveAddress_approximated(1) [of "uidMapOf env cty" "detailsOf env (getProp p ''uid'')" p cty]
    by (metis snd_conv)
  have 4: "(address_source r = ''approximated'') =
        (\<not> fetchedAddressAvailable (uidMapOf env cty) (detailsOf env (getProp p ''uid'')) p)"
    if "processProperty_B env cty p = Pushed r" for r
    using processProperty_B_address [OF that]
      resolveAddress_approximated(1) [of "uidMapOf env cty" "detailsOf env (getProp p ''uid'')" p cty]
    by (metis snd_conv)
  from 1 2 3 4 show ?thesis unfolding sourceOk_def by blast
qed

lemma main_demo: "main demoEnv = Some [demoR2, demoR1]"
  by code_simp

lemma main_B_demo: "main_B demoEnv = Some [demoR2_B, demoR1_B]"
  by code_simp

lemma processProperty_demo:
  "processProperty demoEnv ''ANDERSON COUNTY'' demoP1 = Pushed demoR1"
  "processProperty demoEnv ''ANDERSON COUNTY'' demoP2 = Pushed demoR2"
  "processProperty_B demoEnv ''ANDERSON COUNTY'' demoP1 = Pushed demoR1_B"
  "processProperty_B demoEnv ''ANDERSON COUNTY'' demoP2 = Pushed demoR2_B"
  by code_simp+

text \<open>
  Claim C1 at the first listing of the small run: the bulk map, the detail record and
  the listing row all hold an address, and the bulk map wins.
\<close>

theorem address_precedence_witness:
  "uidMapOf demoEnv ''ANDERSON COUNTY'' (toStr (orElse (getProp demoP1 ''uid'') (JStr []))) =
     Some ''1 MAIN ST, PALESTINE, TX, 75801'' \<and>
   truthy (getProp (JObj (detailsOf demoEnv (getProp demoP1 ''uid''))) ''prop_address_one'') \<and>
   truthy (getProp demoP1 ''prop_address_one'') \<and>
   processProperty demoEnv ''ANDERSON COUNTY'' demoP1 = Pushed demoR1 \<and>
   processProperty_B demoEnv ''ANDERSON COUNTY'' demoP1 = Pushed demoR1_B \<and>
   address demoR1 = ''1 MAIN ST, PALESTINE, TX, 75801'' \<and> address_source demoR1 = ''api_list'' \<and>
   address demoR1_B = ''1 MAIN ST, PALESTINE, TX, 75801'' \<and> address_source demoR1_B = ''api_list''"
proof -
  have h1: "uidMapOf demoEnv ''ANDERSON COUNTY'' (toStr (orElse (getProp demoP1 ''uid'') (JStr []))) =
     Some ''1 MAIN ST, PALESTINE, TX, 75801''" by code_simp
  have h2: "''1 MAIN ST, PALESTINE, TX, 75801'' \<noteq> []" by simp
  have t1: "truthy (getProp (JObj (detailsOf demoEnv (getProp demoP1 ''uid''))) ''prop_address_one'')"
    by code_simp
  have t2: "truthy (getProp demoP1 ''prop_address_one'')" by code_simp
  from address_precedence [OF h1 h2, of "[]"] processProperty_demo h1 t1 t2
  show ?thesis by blast
qed

text \<open>
  Claim C2 at the small run; its second listing has no address anywhere.
\<close>

theorem address_source_invariant_witness:
  "main demoEnv = Some [demoR2, demoR1] \<and> main_B demoEnv = Some [demoR2_B, demoR1_B] \<and>
   address_source demoR1 \<in> set addressSources \<and> address_source demoR1_B \<in> set addressSources \<and>
   address_source demoR2 \<in> set addressSources \<and> address_source demoR2_B \<in> set addressSources \<and>
   processProperty demoEnv ''ANDERSON COUNTY'' demoP2 = Pushed demoR2 \<and>
   processProperty_B demoEnv ''ANDERSON COUNTY'' demoP2 = Pushed demoR2_B \<and>
   address_source demoR2 = ''approximated'' \<and> address_source demoR2_B = ''approximated'' \<and>
   address demoR2 = county demoR2 @ '' (address missing)'' \<and>
   address demoR2_B = county demoR2_B @ '' (address missing)'' \<and>
   \<not> fetchedAddressAvailable (uidMapOf demoEnv ''ANDERSON COUNTY'')
        (detailsOf demoEnv (getProp demoP2 ''uid'')) demoP2"
proof -
  have a: "address_source demoR2 = ''approximated''" "address_source demoR2_B = ''approximated''"
    by (simp_all add: demoR2_def demoR2_B_def)
  have b: "address demoR2 = county demoR2 @ '' (address missing)''"
    "address demoR2_B = county demoR2_B @ '' (address missing)''"
    by (simp_all add: demoR2_def demoR2_B_def)
  from address_source_invariant [of demoEnv "''ANDERSON COUNTY''" demoP2]
    main_demo main_B_demo processProperty_demo a b
  show ?thesis by simp
qed

section \<open>The final sort\<close>

lemma bidNumber_examples:
  "bidNumber (\<lambda>q. q) (JStr ''$1,200'') = 1200"
  "bidNumber (\<lambda>q. q) (JStr ''abc'') = 0"
  "bidNumber (\<lambda>q. q) (JStr ''$500'') = 500"
  by code_simp+

lemma bidNumber_non_numeric:
  "parseFloat (filter (\<lambda>c. isDigit c \<or> c = CHR ''.'') (toStr (orElse x (JStr [])))) = None \<Longrightarrow>
   bidNumber f x = f 0"
  by (simp add: bidNumber_def)

lemma bidNumber_missing: "bidNumber f (JStr []) = f 0" "bidNumber f JUndefined = f 0" "bidNumber f JNull = f 0"
  by (simp_all add: bidNumber_def orElse_def parseFloat_def)

lemma sortResults_sorted:
  "sorted (map (\<lambda>r. bidNumber (toDouble env) (min_bid r)) (sortResults env rs))"
  unfolding sortResults_def by (rule sorted_sort_key)

text \<open>
  Claim C9. What \<open>main\<close> writes is sorted ascending by the number parsed from
  \<^verbatim>\<open>min_bid\<close>; sorting permutes the records; a non-numeric or missing \<^verbatim>\<open>min_bid\<close>
  counts as 0; and records with the bids \<^verbatim>\<open>"$1,200"\<close>, \<^verbatim>\<open>"abc"\<close>, \<^verbatim>\<open>"$500"\<close> come
  out in the order 0, 500, 1200.
\<close>

theorem results_sorted_by_min_bid:
  "(\<forall>rs. main env = Some rs \<longrightarrow> sorted (map (\<lambda>r. bidNumber (toDouble env) (min_bid r)) rs)) \<and>
   (\<forall>rs. main_B env = Some rs \<longrightarrow> sorted (map (\<lambda>r. bidNumber (toDouble env) (min_bid r)) rs)) \<and>
   sorted (map (\<lambda>r. bidNumber (toDouble env) (min_bid r)) (sortResults env results)) \<and>
   mset (sortResults env results) = mset results \<and>
   bidNumber (toDouble env) (JStr ''abc'') = toDouble env 0 \<and>
   bidNumber (toDouble env) (JStr []) = toDouble env 0 \<and>
   map min_bid (sortResults demoEnv
       [r\<lparr>min_bid := JStr ''$1,200''\<rparr>, r\<lparr>min_bid := JStr ''abc''\<rparr>, r\<lparr>min_bid := JStr ''$500''\<rparr>]) =
     [JStr ''abc'', JStr ''$500'', JStr ''$1,200''] \<and>
   map (bidNumber (toDouble demoEnv)) [JStr ''abc'', JStr ''$500'', JStr ''$1,200''] = [0, 500, 1200]"
proof -
  note s = sortResults_sorted
  have 1: "sorted (map (\<lambda>r. bidNumber (toDouble env) (min_bid r)) rs)" if "main env = Some rs" for rs
    using that sortResults_sorted [of env] by (auto simp: main_def Let_def split: if_splits)
  have 2: "sorted (map (\<lambda>r. bidNumber (toDouble env) (min_bid r)) rs)" if "main_B env = Some rs" for rs
    using that sortResults_sorted [of env] by (auto simp: main_B_def Let_def split: if_splits)
  have 3: "mset (sortResults env results) = mset results"
    by (simp add: sortResults_def)
  have 4: "bidNumber (toDouble env) (JStr ''abc'') = toDouble env 0"
    by (rule bidNumber_non_numeric) code_simp
  have 5: "bidNumber (toDouble env) (JStr []) = toDouble env 0" by (rule bidNumber_missing)
  have td: "toDouble demoEnv = (\<lambda>q. q)" by (simp add: demoEnv_def)
  have 6: "map min_bid (sortResults demoEnv
       [r\<lparr>min_bid := JStr ''$1,200''\<rparr>, r\<lparr>min_bid := JStr ''abc''\<rparr>, r\<lparr>min_bid := JStr ''$500''\<rparr>]) =
     [JStr ''abc'', JStr ''$500'', JStr ''$1,200'']"
    by (simp add: sortResults_def td bidNumber_examples)
  have 7: "map (bidNumber (toDouble demoEnv)) [JStr ''abc'', JStr ''$500'', JStr ''$1,200''] = [0, 500, 1200]"
    by (simp add: td bidNumber_examples)
  from 1 2 sortResults_sorted [of env results] 3 4 5 6 7 show ?thesis by blast
qed

text \<open>
  Claim C9 at the small run.
\<close>

theorem results_sorted_by_min_bid_witness:
  "main demoEnv = Some [demoR2, demoR1] \<and> main_B demoEnv = Some [demoR2_B, demoR1_B] \<and>
   map (\<lambda>r. bidNumber (toDouble demoEnv) (min_bid r)) [demoR2, demoR1] = [0, 1200] \<and>
   sorted (map (\<lambda>r. bidNumber (toDouble demoEnv) (min_bid r)) [demoR2, demoR1]) \<and>
   sorted (map (\<lambda>r. bidNumber (toDouble demoEnv) (min_bid r)) [demoR2_B, demoR1_B])"
proof -
  have td: "toDouble demoEnv = (\<lambda>q. q)" by (simp add: demoEnv_def)
  have v: "map (\<lambda>r. bidNumber (toDouble demoEnv) (min_bid r)) [demoR2, demoR1] = [0, 1200]"
    by (simp add: td demoR1_def demoR2_def bidNumber_examples)
  from results_sorted_by_min_bid [of demoEnv] main_demo main_B_demo v
  show ?thesis by blast
qed

section \<open>The pagination walker\<close>

lemma getPropertiesLoop_step:
  assumes "fetch offset = Inr data" "getProp data ''results'' = JArr xs" "xs \<noteq> []"
    "truthy (getProp data ''next'')"
  shows "getPropertiesLoop fetch offset acc tr =
         getPropertiesLoop fetch (offset + 600) (acc @ xs) (tr @ [offset])"
  using assms by (subst getPropertiesLoop.simps) (simp add: lengthTruthy_def spread_def)

lemma getPropertiesLoop_stop:
  assumes "fetch offset = Inr data" "lastPage data"
    "lengthTruthy (getProp data ''results'') \<longrightarrow> isArray (getProp data ''results'')"
  shows "getPropertiesLoop fetch offset acc tr = Some (Inr (acc @ pageItems data), tr @ [offset])"
proof (cases "lengthTruthy (getProp data ''results'')")
  case False
  then have "pageItems data = []"
    by (auto simp: pageItems_def lengthTruthy_def split: jsval.splits)
  with False assms(1) show ?thesis by (subst getPropertiesLoop.simps) simp
next
  case True
  with assms(3) obtain xs where xs: "getProp data ''results'' = JArr xs"
    by (cases "getProp data ''results''") auto
  from True assms(2) have "\<not> truthy (getProp data ''next'')" by (simp add: lastPage_def)
  with True xs assms(1) show ?thesis
    by (subst getPropertiesLoop.simps) (simp add: spread_def pageItems_def)
qed

lemma getPropertiesLoop_walk:
  assumes "\<forall>i<k. fetch (600 * i) = Inr (d i) \<and> \<not> lastPage (d i) \<and> isArray (getProp (d i) ''results'')"
  shows "getPropertiesLoop fetch 0 [] [] =
         getPropertiesLoop fetch (600 * k) (concat (map (\<lambda>i. pageItems (d i)) [0..<k]))
           (map (\<lambda>i. 600 * i) [0..<k])"
  using assms
proof (induction k)
  case 0
  then show ?case by simp
next
  case (Suc k)
  then have IH: "getPropertiesLoop fetch 0 [] [] =
         getPropertiesLoop fetch (600 * k) (concat (map (\<lambda>i. pageItems (d i)) [0..<k]))
           (map (\<lambda>i. 600 * i) [0..<k])" by simp
  from Suc.prems have f: "fetch (600 * k) = Inr (d k)" and nl: "\<not> lastPage (d k)"
    and arr: "isArray (getProp (d k) ''results'')" by simp_all
  from arr obtain xs where xs: "getProp (d k) ''results'' = JArr xs"
    by (cases "getProp (d k) ''results''") auto
  from nl xs have ne: "xs \<noteq> []" and nx: "truthy (getProp (d k) ''next'')"
    by (auto simp: lastPage_def lengthTruthy_def)
  from xs have pi: "pageItems (d k) = xs" by (simp add: pageItems_def)
  have e: "600 * k + 600 = 600 * Suc k" by simp
  have st: "getPropertiesLoop fetch (600 * k) acc tr =
        getPropertiesLoop fetch (600 * Suc k) (acc @ xs) (tr @ [600 * k])" for acc tr
    using getPropertiesLoop_step [of fetch "600 * k" "d k" xs acc tr] f xs ne nx
    by (simp add: add.commute)
  show ?case
    unfolding IH st by (simp add: pi)
qed

text \<open>
  Claim C6. Let the listing API answer the requests at the offsets 0, 600, 1200, ...
  with a finite sequence of pages whose results, where there are any, are arrays. If
  the last page of the sequence is the first with no results or no \<^verbatim>\<open>next\<close>, then
  \<open>getProperties\<close> terminates, returns the concatenation of the results of all the
  pages, and has requested exactly one page per member of the sequence.
\<close>

theorem getProperties_walks_pages:
  assumes "pages \<noteq> []"
    and "\<forall>i<length pages. fetch (600 * i) = Inr (pages ! i)"
    and "\<forall>i<length pages. lengthTruthy (getProp (pages ! i) ''results'') \<longrightarrow>
           isArray (getProp (pages ! i) ''results'')"
    and "\<forall>i<length pages - 1. \<not> lastPage (pages ! i)"
    and "lastPage (last pages)"
  shows "getProperties fetch =
           Some (Inr (concat (map pageItems pages)), map (\<lambda>i. 600 * i) [0..<length pages])"
proof -
  define k where "k = length pages - 1"
  with assms(1) have len: "length pages = Suc k" by (cases pages) auto
  have lst: "last pages = pages ! k" using assms(1) by (simp add: last_conv_nth k_def)
  have w: "\<forall>i<k. fetch (600 * i) = Inr (pages ! i) \<and> \<not> lastPage (pages ! i) \<and>
             isArray (getProp (pages ! i) ''results'')"
  proof (intro allI impI)
    fix i assume i: "i < k"
    then have "i < length pages" by (simp add: len)
    moreover from i have "\<not> lastPage (pages ! i)" using assms(4) by (simp add: k_def)
    ultimately show "fetch (600 * i) = Inr (pages ! i) \<and> \<not> lastPage (pages ! i) \<and>
             isArray (getProp (pages ! i) ''results'')"
      using assms(2,3) by (auto simp: lastPage_def)
  qed
  have "getProperties fetch =
      getPropertiesLoop fetch (600 * k) (concat (map (\<lambda>i. pageItems (pages ! i)) [0..<k]))
           (map (\<lambda>i. 600 * i) [0..<k])"
    unfolding getProperties_def using w by (rule getPropertiesLoop_walk)
  also have "\<dots> = Some (Inr (concat (map (\<lambda>i. pageItems (pages ! i)) [0..<k]) @ pageItems (pages ! k)),
           map (\<lambda>i. 600 * i) [0..<k] @ [600 * k])"
    using assms(2,3,5) by (intro getPropertiesLoop_stop) (simp_all add: len lst)
  also have "concat (map (\<lambda>i. pageItems (pages ! i)) [0..<k]) @ pageItems (pages ! k) =
      concat (map (\<lambda>i. pageItems (pages ! i)) [0..<length pages])" by (simp add: len)
  also have "map (\<lambda>i. pageItems (pages ! i)) [0..<length pages] = map pageItems pages"
    by (rule nth_equalityI) simp_all
  also have "map (\<lambda>i. 600 * i) [0..<k] @ [600 * k] = map (\<lambda>i. 600 * i) [0..<length pages]"
    by (simp add: len)
  finally show ?thesis .
qed

text \<open>
  Claim C6 at the scenario of the specification: 600 results and a \<^verbatim>\<open>next\<close>, then
  400 results and no \<^verbatim>\<open>next\<close>. The walker returns 1000 results and stops after the
  second request.
\<close>

theorem getProperties_walks_pages_witness:
  "getProperties demoListing =
     Some (Inr (replicate 600 demoItem @ replicate 400 demoItem), [0, 600]) \<and>
   length (replicate 600 demoItem @ replicate 400 demoItem) = 1000"
proof -
  let ?pages = "[demoPage1, demoPage2]"
  have r1: "getProp demoPage1 ''results'' = JArr (replicate 600 demoItem)"
    and n1: "getProp demoPage1 ''next'' = JStr ''?offset=600''"
    and r2: "getProp demoPage2 ''results'' = JArr (replicate 400 demoItem)"
    and n2: "getProp demoPage2 ''next'' = JUndefined"
    by (simp_all add: demoPage1_def demoPage2_def)
  have ne: "replicate 600 demoItem \<noteq> []" "replicate 400 demoItem \<noteq> []" by simp_all
  have h1: "?pages \<noteq> []" by simp
  have h2: "\<forall>i<length ?pages. demoListing (600 * i) = Inr (?pages ! i)"
    by (simp add: demoListing_def less_Suc_eq)
  have h3: "\<forall>i<length ?pages. lengthTruthy (getProp (?pages ! i) ''results'') \<longrightarrow>
           isArray (getProp (?pages ! i) ''results'')"
    by (simp add: less_Suc_eq r1 r2)
  have h4: "\<forall>i<length ?pages - 1. \<not> lastPage (?pages ! i)"
    using ne by (simp add: lastPage_def lengthTruthy_def r1 n1)
  have h5: "lastPage (last ?pages)" by (simp add: lastPage_def n2)
  have "getProperties demoListing =
      Some (Inr (concat (map pageItems ?pages)), map (\<lambda>i. 600 * i) [0..<length ?pages])"
    using h1 h2 h3 h4 h5 by (rule getProperties_walks_pages)
  moreover have "concat (map pageItems ?pages) = replicate 600 demoItem @ replicate 400 demoItem"
    by (simp add: pageItems_def r1 r2)
  moreover have "map (\<lambda>i. 600 * i) [0..<length ?pages] = [0, 600]"
    by (simp add: upt_rec)
  ultimately show ?thesis by simp
qed

section \<open>The county resolver\<close>

lemma set_newSet: "set (newSet xs) = set xs"
proof -
  have "set (foldl setAdd acc xs) = set acc \<union> set xs" for acc
    by (induction xs arbitrary: acc) (auto simp: setAdd_def)
  then show ?thesis by (simp add: newSet_def)
qed

lemma nonMetro_excludes: "m \<in> set METRO_COUNTIES \<Longrightarrow> m \<notin> set (nonMetro names)"
  by (simp add: nonMetro_def)

lemma countiesFromSaleCounties_excludes:
  "countiesFromSaleCounties response = Inr cs \<Longrightarrow> m \<in> set METRO_COUNTIES \<Longrightarrow> m \<notin> set cs"
  by (auto simp: countiesFromSaleCounties_def nonMetro_excludes split: sum.splits)

lemma countiesFromCounties_excludes:
  "countiesFromCounties response = Inr cs \<Longrightarrow> m \<in> set METRO_COUNTIES \<Longrightarrow> m \<notin> set cs"
  by (auto simp: countiesFromCounties_def nonMetro_excludes split: sum.splits)

lemma addListingCounties_excludes:
  "addListingCounties ps s = Inr s' \<Longrightarrow> m \<in> set METRO_COUNTIES \<Longrightarrow> m \<notin> set s \<Longrightarrow> m \<notin> set s'"
proof (induction ps arbitrary: s)
  case Nil
  then show ?case by simp
next
  case (Cons p ps)
  from Cons.prems(1) obtain name where
    n: "normalizeCountyNameJ (getProp p ''county'') = Inr name"
    and r: "addListingCounties ps (if name \<notin> set METRO_COUNTIES then setAdd s name else s) = Inr s'"
    by (auto split: if_splits sum.splits)
  have "m \<notin> set (if name \<notin> set METRO_COUNTIES then setAdd s name else s)"
    using Cons.prems(2,3) by (auto simp: setAdd_def)
  with Cons.IH [OF r Cons.prems(2)] show ?case by blast
qed

lemma scanPropertySales_excludes:
  assumes run: "scanPropertySales fetch offset s = Some y" and m: "m \<in> set METRO_COUNTIES"
  shows "m \<notin> set s \<longrightarrow> (\<forall>s'. y = Inr s' \<longrightarrow> m \<notin> set s')"
proof (rule scanPropertySales.raw_induct
    [where P = "\<lambda>fetch offset s y. m \<notin> set s \<longrightarrow> (\<forall>s'. y = Inr s' \<longrightarrow> m \<notin> set s')", OF _ run],
    goal_cases)
  case (1 scan fetch offset s y)
  note IH = 1(1) and eq = 1(2)
  show ?case
  proof (intro impI allI)
    fix s' assume ms: "m \<notin> set s" and y: "y = Inr s'"
    show "m \<notin> set s'"
    proof (cases "fetch offset")
      case (Inl e)
      with eq y show ?thesis by simp
    next
      case (Inr data)
      note data = Inr
      show ?thesis
      proof (cases "lengthTruthy (getProp data ''results'')")
        case False
        with data eq y ms show ?thesis by simp
      next
        case True
        note lt = True
        show ?thesis
        proof (cases "arrayElems (getProp data ''results'')")
          case (Inl e)
          with data lt eq y show ?thesis by simp
        next
          case (Inr ps)
          note ps = Inr
          show ?thesis
          proof (cases "addListingCounties ps s")
            case (Inl e)
            with data lt ps eq y show ?thesis by simp
          next
            case (Inr s1)
            have m1: "m \<notin> set s1"
              using Inr m ms by (rule addListingCounties_excludes)
            show ?thesis
            proof (cases "truthy (getProp data ''next'')")
              case False
              with data lt ps Inr eq y m1 show ?thesis by simp
            next
              case True
              with data lt ps Inr eq have "scan fetch (offset + 1000) s1 = Some y" by simp
              from IH [OF this] m1 y show ?thesis by blast
            qed
          qed
        qed
      qed
    qed
  qed
qed

text \<open>
  Claim C8. No county of the excluded metro set is in the list that
  \<open>getAllCounties\<close> returns, whichever stage produced it.
\<close>

theorem metro_counties_excluded:
  assumes "getAllCounties env = Some cs" and "m \<in> set METRO_COUNTIES"
  shows "m \<notin> set cs"
proof (cases "\<exists>c r. countiesFromSaleCounties (saleCounties env) = Inr (c # r)")
  case True
  then obtain c r where s1: "countiesFromSaleCounties (saleCounties env) = Inr (c # r)" by blast
  with assms(1) have "cs = sort (c # r)" by (simp add: getAllCounties_def del: sort_key_simps)
  then have "set cs = set (c # r)" by (simp only: set_sort)
  moreover have "m \<notin> set (c # r)" using s1 assms(2) by (rule countiesFromSaleCounties_excludes)
  ultimately show ?thesis by blast
next
  case no1: False
  show ?thesis
  proof (cases "\<exists>c r. countiesFromCounties (countiesEndpoint env) = Inr (c # r)")
    case True
    then obtain c r where s2: "countiesFromCounties (countiesEndpoint env) = Inr (c # r)" by blast
    with assms(1) no1 have "cs = sort (c # r)"
      by (auto simp: getAllCounties_def simp del: sort_key_simps split: sum.splits list.splits)
    then have "set cs = set (c # r)" by (simp only: set_sort)
    moreover have "m \<notin> set (c # r)" using s2 assms(2) by (rule countiesFromCounties_excludes)
    ultimately show ?thesis by blast
  next
    case no2: False
    with assms(1) no1 have
      e: "Some cs = (case scanPropertySales (propertySales env) 0 [] of
              None \<Rightarrow> None
            | Some (Inl err) \<Rightarrow> Some []
            | Some (Inr s) \<Rightarrow> Some (sort s))"
      by (auto simp: getAllCounties_def split: sum.splits list.splits)
    show ?thesis
    proof (cases "scanPropertySales (propertySales env) 0 []")
      case None
      with e show ?thesis by simp
    next
      case (Some y)
      show ?thesis
      proof (cases y)
        case (Inl err)
        with Some e show ?thesis by simp
      next
        case (Inr s)
        have "m \<notin> set s"
          using scanPropertySales_excludes [OF Some assms(2)] Inr by simp
        with Some Inr e show ?thesis by simp
      qed
    qed
  qed
qed

text \<open>
  Claim C8 at three runs: the list comes from stage 1 (which drops
  \<^verbatim>\<open>"travis, tx"\<close>), from stage 2 (which drops \<^verbatim>\<open>Harris\<close>) and from stage 3 (which
  drops \<^verbatim>\<open>Dallas\<close> and \<^verbatim>\<open>Bexar County\<close>).
\<close>

theorem metro_counties_excluded_witness:
  "getAllCounties demoCounties1 = Some [''ANDERSON COUNTY'', ''ZAVALA COUNTY''] \<and>
   getAllCounties demoCounties2 = Some [''BEE COUNTY''] \<and>
   getAllCounties demoCounties3 = Some [''BEE COUNTY'', ''CASS COUNTY''] \<and>
   ''TRAVIS COUNTY'' \<in> set METRO_COUNTIES \<and>
   ''TRAVIS COUNTY'' \<notin> set [''ANDERSON COUNTY'', ''ZAVALA COUNTY''] \<and>
   ''HARRIS COUNTY'' \<in> set METRO_COUNTIES \<and>
   ''HARRIS COUNTY'' \<notin> set [''BEE COUNTY''] \<and>
   ''DALLAS COUNTY'' \<in> set METRO_COUNTIES \<and>
   ''DALLAS COUNTY'' \<notin> set [''BEE COUNTY'', ''CASS COUNTY'']"
proof -
  have e1: "getAllCounties demoCounties1 = Some [''ANDERSON COUNTY'', ''ZAVALA COUNTY'']"
    by code_simp
  have e2: "getAllCounties demoCounties2 = Some [''BEE COUNTY'']" by code_simp
  have e3: "getAllCounties demoCounties3 = Some [''BEE COUNTY'', ''CASS COUNTY'']" by code_simp
  have m: "''TRAVIS COUNTY'' \<in> set METRO_COUNTIES" "''HARRIS COUNTY'' \<in> set METRO_COUNTIES"
    "''DALLAS COUNTY'' \<in> set METRO_COUNTIES"
    by (simp_all add: METRO_COUNTIES_def)
  from metro_counties_excluded [OF e1 m(1)] metro_counties_excluded [OF e2 m(2)]
    metro_counties_excluded [OF e3 m(3)] e1 e2 e3 m
  show ?thesis by blast
qed

section \<open>Lien extraction\<close>

lemma getProp_primitive: "\<not> isObjectValue v \<Longrightarrow> getProp v k = JUndefined"
  by (cases v) (simp_all add: isObjectValue_def)

lemma getProp_JArr: "getProp (JArr xs) k = JUndefined"
  by simp

lemma path_undefined: "path JUndefined ks = JUndefined"
  unfolding path_def by (induction ks) simp_all

lemma path_no_object: "ks \<noteq> [] \<Longrightarrow> (\<And>k. getProp v k = JUndefined) \<Longrightarrow> path v ks = JUndefined"
  using path_undefined by (cases ks) (simp_all add: path_def)

lemma extractLienInfo_no_hits:
  assumes "noHits (knownHits apiResponse)"
    and "searchName = [] \<or> findCandidateArrayByText apiResponse (searchToken searchName) = None"
    and "findByLienKeyword apiResponse = None"
  shows "extractLienInfo rt apiResponse searchName = emptyResult"
proof -
  have "resolveHits apiResponse searchName = knownHits apiResponse"
    using assms by (auto simp: resolveHits_def Let_def searchToken_def)
  with assms(1) show ?thesis by (simp add: extractLienInfo_def Let_def)
qed

lemma primitive_no_hits:
  assumes "\<not> isObjectValue v"
  shows "knownHits v = JArr []" "scanByText lower v = []" "scanByLien v = []"
proof -
  have g: "getProp v k = JUndefined" for k using assms by (rule getProp_primitive)
  have "path v ks = JUndefined" if "ks \<noteq> []" for ks using that g by (rule path_no_object)
  then show "knownHits v = JArr []" by (simp add: knownHits_def g)
  show "scanByText lower v = []" "scanByLien v = []"
    using assms by (cases v; simp add: isObjectValue_def)+
qed

lemma largestFirst_Nil: "largestFirst [] = None"
  by (simp add: largestFirst_def)

text \<open>
  Claim C3. Lien extraction degrades to the default summary and does not throw. In
  the session-based script, \<open>extractLienInfo\<close> is a total function that returns a
  summary on every input; it returns the default summary on every input that is not
  an object (\<^verbatim>\<open>null\<close>, \<^verbatim>\<open>undefined\<close>, a boolean, a number, a string), and on every
  tree in which the known paths hold no hits, the name search finds no candidate array
  (or there is no name) and the keyword search finds no candidate array. In the
  statewide script, \<open>extractLienInfo_S\<close> returns the default summary, and no
  exception, on every input that is not an object and on every tree whose one known
  path holds anything but a non-empty array.
\<close>

theorem extractLienInfo_defaults:
  "(\<not> isObjectValue apiResponse \<longrightarrow> extractLienInfo rt apiResponse searchName = emptyResult) \<and>
   (noHits (knownHits apiResponse) \<and>
    (searchName = [] \<or> findCandidateArrayByText apiResponse (searchToken searchName) = None) \<and>
    findByLienKeyword apiResponse = None \<longrightarrow>
      extractLienInfo rt apiResponse searchName = emptyResult) \<and>
   (\<not> isObjectValue apiResponse \<longrightarrow> extractLienInfo_S rt apiResponse = Inr emptyResult) \<and>
   (noHitArray (path apiResponse statewidePath) \<longrightarrow> extractLienInfo_S rt apiResponse = Inr emptyResult)"
proof -
  have 2: "extractLienInfo rt apiResponse searchName = emptyResult"
    if "noHits (knownHits apiResponse) \<and>
        (searchName = [] \<or> findCandidateArrayByText apiResponse (searchToken searchName) = None) \<and>
        findByLienKeyword apiResponse = None"
    using that by (intro extractLienInfo_no_hits) simp_all
  have 1: "extractLienInfo rt apiResponse searchName = emptyResult" if p: "\<not> isObjectValue apiResponse"
  proof (rule extractLienInfo_no_hits)
    show "noHits (knownHits apiResponse)"
      by (simp add: primitive_no_hits(1) [OF p] noHits_def lengthIsZero_def)
    show "searchName = [] \<or> findCandidateArrayByText apiResponse (searchToken searchName) = None"
      by (simp add: findCandidateArrayByText_def primitive_no_hits(2) [OF p] largestFirst_Nil)
    show "findByLienKeyword apiResponse = None"
      by (simp add: findByLienKeyword_def primitive_no_hits(3) [OF p] largestFirst_Nil)
  qed
  have 4: "extractLienInfo_S rt apiResponse = Inr emptyResult"
    if "noHitArray (path apiResponse statewidePath)"
    using that
    by (cases "path apiResponse [''response'', ''response'', ''data'', ''hits'', ''hits'']")
      (simp_all add: extractLienInfo_S_def noHitArray_def statewidePath_def Let_def)
  have 3: "extractLienInfo_S rt apiResponse = Inr emptyResult" if p: "\<not> isObjectValue apiResponse"
  proof -
    have "path apiResponse statewidePath = JUndefined"
      using getProp_primitive [OF p] by (intro path_no_object) (simp_all add: statewidePath_def)
    then show ?thesis by (simp add: extractLienInfo_S_def statewidePath_def Let_def)
  qed
  from 1 2 3 4 show ?thesis by blast
qed

text \<open>
  The theorem at \<^verbatim>\<open>null\<close> and at a response that holds an array of city names and
  nothing that looks like a hit, with the search name \<^verbatim>\<open>"JOHN DOE"\<close>.
\<close>

theorem extractLienInfo_defaults_witness:
  "\<not> isObjectValue JNull \<and> extractLienInfo demoRuntime JNull ''JOHN DOE'' = emptyResult \<and>
   extractLienInfo_S demoRuntime JNull = Inr emptyResult \<and>
   noHits (knownHits demoNavigation) \<and>
   findCandidateArrayByText demoNavigation (searchToken ''JOHN DOE'') = None \<and>
   findByLienKeyword demoNavigation = None \<and>
   noHitArray (path demoNavigation statewidePath) \<and>
   extractLienInfo demoRuntime demoNavigation ''JOHN DOE'' = emptyResult \<and>
   extractLienInfo_S demoRuntime demoNavigation = Inr emptyResult"
proof -
  have p: "\<not> isObjectValue JNull" by (simp add: isObjectValue_def)
  have h1: "noHits (knownHits demoNavigation)" by code_simp
  have h2: "findCandidateArrayByText demoNavigation (searchToken ''JOHN DOE'') = None" by code_simp
  have h3: "findByLienKeyword demoNavigation = None" by code_simp
  have h4: "noHitArray (path demoNavigation statewidePath)" by code_simp
  from extractLienInfo_defaults [of JNull demoRuntime "''JOHN DOE''"] p
    extractLienInfo_defaults [of demoNavigation demoRuntime "''JOHN DOE''"] h1 h2 h3 h4
  show ?thesis by blast
qed

section \<open>The statewide variant\<close>

lemma formattedResponse_records: "getProp (formattedResponse details) ''records'' = JUndefined"
  by (simp add: formattedResponse_def)

lemma cacheOk_lookup:
  "cacheOk st \<Longrightarrow> map_of (responseCache st) k = Some v \<Longrightarrow> getProp v ''records'' = JUndefined"
  by (auto simp: cacheOk_def list_all_iff dest: map_of_SomeD)

lemma formatSearch_formatted:
  "formatSearch countyName data = Inr (Some v) \<Longrightarrow> getProp v ''records'' = JUndefined"
  by (auto simp: formatSearch_def Let_def formattedResponse_records split: if_splits sum.splits)

lemma getTexasFileData_S_no_records:
  assumes run: "getTexasFileData_S server cty name causeNumber st = Some y"
  shows "cacheOk st \<longrightarrow> getProp (fst y) ''records'' = JUndefined \<and> cacheOk (snd y)"
proof (rule getTexasFileData_S.raw_induct
    [where P = "\<lambda>server cty name causeNumber st y.
                  cacheOk st \<longrightarrow> getProp (fst y) ''records'' = JUndefined \<and> cacheOk (snd y)", OF _ run],
    goal_cases)
  case (1 f server cty name causeNumber st y)
  note IH = 1(1) and eq = 1(2)
  show ?case
  proof
    assume ok: "cacheOk st"
    let ?key = "toStr cty @ '':'' @ toStr name @ '':'' @ toStr causeNumber"
    show "getProp (fst y) ''records'' = JUndefined \<and> cacheOk (snd y)"
    proof (cases "map_of (responseCache st) ?key")
      case (Some cached)
      with eq have "y = (cached, st)" by (simp add: Let_def)
      with ok Some show ?thesis using cacheOk_lookup by auto
    next
      case None
      note miss = None
      show ?thesis
      proof (cases "\<exists>c n. cty = JStr c \<and> name = JStr n")
        case False
        with eq miss have "y = (JNull, st)"
          by (auto simp: Let_def split: jsval.splits)
        with ok show ?thesis by simp
      next
        case True
        then obtain c n where cn: "cty = JStr c" "name = JStr n" by blast
        let ?st1 = "st\<lparr> attempts := Suc (attempts st) \<rparr>"
        have ok1: "cacheOk ?st1" using ok by (simp add: cacheOk_def)
        show ?thesis
        proof (cases "server (attempts st)")
          case (Inl err)
          show ?thesis
          proof (cases "errStatus err = Some 429")
            case True
            with eq miss cn Inl
            have "f server cty name causeNumber (?st1\<lparr> waits := waits ?st1 @ [REQUEST_DELAY_MS * 2] \<rparr>) = Some y"
              by (simp add: Let_def)
            from IH [OF this] ok1 show ?thesis by (simp add: cacheOk_def)
          next
            case False
            with eq miss cn Inl have "y = (JNull, ?st1)" by (simp add: Let_def)
            with ok1 show ?thesis by simp
          qed
        next
          case (Inr data)
          let ?fs = "formatSearch (toLowerCase (trim (stripCounty c))) data"
          show ?thesis
          proof (cases "\<exists>v. ?fs = Inr (Some v)")
            case True
            then obtain v where v: "?fs = Inr (Some v)" by blast
            with eq miss cn Inr
            have y: "y = (v, ?st1\<lparr> responseCache := (?key, v) # responseCache ?st1 \<rparr>)"
              by (simp add: Let_def)
            have "getProp v ''records'' = JUndefined" using v by (rule formatSearch_formatted)
            with y ok show ?thesis by (simp add: cacheOk_def)
          next
            case False
            with eq miss cn Inr have "y = (JNull, ?st1)"
              by (auto simp: Let_def split: sum.splits option.splits)
            with ok1 show ?thesis by simp
          qed
        qed
      qed
    qed
  qed
qed

lemma extractLienInfo_S_no_records:
  "getProp apiData ''records'' = JUndefined \<Longrightarrow>
   extractLienInfo_S rt (orElse (getProp apiData ''records'') (JArr [])) = Inr emptyResult"
  by (simp add: orElse_def extractLienInfo_S_def path_def)

lemma processRows_S_empty:
  "cacheOk st \<Longrightarrow> processRows_S rt server rows st results = Some (out, st') \<Longrightarrow>
   out = Inr (results @ map (\<lambda>row. \<lparr> original_S = row, lienInfo_S = emptyResult \<rparr>) rows)"
proof (induction rows arbitrary: st results)
  case Nil
  then show ?case by simp
next
  case (Cons row rows)
  from Cons.prems(2) obtain apiData st1 where
    g: "getTexasFileData_S server (column row ''county'') (column row ''case_style'')
             (column row ''cause_number'') st = Some (apiData, st1)"
    by (auto split: option.splits)
  from getTexasFileData_S_no_records [OF g] Cons.prems(1)
  have nr: "getProp apiData ''records'' = JUndefined" and ok1: "cacheOk st1" by simp_all
  let ?st2 = "st1\<lparr> waits := waits st1 @ [REQUEST_DELAY_MS] \<rparr>"
  have ok2: "cacheOk ?st2" using ok1 by (simp add: cacheOk_def)
  from Cons.prems(2) g extractLienInfo_S_no_records [OF nr, of rt]
  have "processRows_S rt server rows ?st2
          (results @ [\<lparr> original_S = row, lienInfo_S = emptyResult \<rparr>]) = Some (out, st')"
    by (simp add: Let_def)
  from Cons.IH [OF ok2 this] show ?case by simp
qed

text \<open>
  Claim C10. In the statewide script the summary merged into a row is always the
  default summary. Whatever \<open>getTexasFileData_S\<close> returns from a cache that holds
  formatted responses only (the empty cache of a fresh run, and every cache later in
  the run) has no \<^verbatim>\<open>records\<close> property, so the caller passes the empty array and
  \<open>extractLienInfo_S\<close> returns the default summary; and every run of the loop over
  the rows that ends has written every input row with the default summary.
\<close>

theorem statewide_summary_always_empty:
  "(\<forall>apiData st'. cacheOk st \<and> getTexasFileData_S server cty name causeNumber st = Some (apiData, st') \<longrightarrow>
      getProp apiData ''records'' = JUndefined \<and>
      extractLienInfo_S rt (orElse (getProp apiData ''records'') (JArr [])) = Inr emptyResult) \<and>
   (\<forall>out st'. processCSV_S rt server rows = Some (out, st') \<longrightarrow>
      out = Inr (map (\<lambda>row. \<lparr> original_S = row, lienInfo_S = emptyResult \<rparr>) rows))"
proof -
  have 1: "getProp apiData ''records'' = JUndefined \<and>
      extractLienInfo_S rt (orElse (getProp apiData ''records'') (JArr [])) = Inr emptyResult"
    if "cacheOk st \<and> getTexasFileData_S server cty name causeNumber st = Some (apiData, st')"
    for apiData st'
  proof -
    from that getTexasFileData_S_no_records [of server cty name causeNumber st "(apiData, st')"]
    have "getProp apiData ''records'' = JUndefined" by simp
    then show ?thesis using extractLienInfo_S_no_records by blast
  qed
  have 2: "out = Inr (map (\<lambda>row. \<lparr> original_S = row, lienInfo_S = emptyResult \<rparr>) rows)"
    if "processCSV_S rt server rows = Some (out, st')" for out st'
  proof -
    have "cacheOk \<lparr> responseCache = [], attempts = 0, waits = [] \<rparr>" by (simp add: cacheOk_def)
    from processRows_S_empty [OF this that [unfolded processCSV_S_def]] show ?thesis by simp
  qed
  from 1 2 show ?thesis by blast
qed

lemma processCSV_S_demo:
  "processCSV_S demoRuntime demoSearch [demoRow, demoRow] =
     Some (Inr [\<lparr> original_S = demoRow, lienInfo_S = emptyResult \<rparr>,
                \<lparr> original_S = demoRow, lienInfo_S = emptyResult \<rparr>],
           \<lparr> responseCache = [(''ANDERSON COUNTY:CITY VS JOHN DOE:undefined'',
                 formattedResponse [JObj [(''document_id'', JNum ''77''),
                   (''document_type'', JStr ''Tax Lien State''), (''type'', JStr ''Tax Lien State''),
                   (''date_filed'', JStr ''2023-05-01''), (''county_name'', JStr ''anderson''),
                   (''url'', JStr ''https://www.texasfile.com/search/texas/anderson/county-clerk-records/77/'')]])],
              attempts = 3, waits = [4000, 4000, 2000, 2000] \<rparr>)"
  by code_simp

lemma getTexasFileData_S_demo:
  "getTexasFileData_S demoSearch (JStr ''ANDERSON COUNTY'') (JStr ''CITY VS JOHN DOE'') JUndefined
     initialFetchState =
   Some (demoFormatted,
         \<lparr> responseCache = [(''ANDERSON COUNTY:CITY VS JOHN DOE:undefined'', demoFormatted)],
           attempts = 3, waits = [4000, 4000] \<rparr>)"
  by code_simp

lemma demoFormatted_lien:
  "lien_count (projr (extractLienInfo_S demoRuntime demoFormatted)) = 1"
  by code_simp

text \<open>
  The theorem on a server that answers 429 twice and then sends one record of type
  \<^verbatim>\<open>Tax Lien State\<close>: the fetch returns the formatted response, in which
  \<open>extractLienInfo_S\<close> counts one lien, yet the rows are written with the default
  summary.
\<close>

theorem statewide_summary_always_empty_witness:
  "cacheOk initialFetchState \<and>
   getTexasFileData_S demoSearch (JStr ''ANDERSON COUNTY'') (JStr ''CITY VS JOHN DOE'') JUndefined
     initialFetchState =
   Some (demoFormatted,
         \<lparr> responseCache = [(''ANDERSON COUNTY:CITY VS JOHN DOE:undefined'', demoFormatted)],
           attempts = 3, waits = [4000, 4000] \<rparr>) \<and>
   lien_count (projr (extractLienInfo_S demoRuntime demoFormatted)) = 1 \<and>
   extractLienInfo_S demoRuntime (orElse (getProp demoFormatted ''records'') (JArr [])) = Inr emptyResult \<and>
   fst (the (processCSV_S demoRuntime demoSearch [demoRow, demoRow])) =
     Inr [\<lparr> original_S = demoRow, lienInfo_S = emptyResult \<rparr>,
          \<lparr> original_S = demoRow, lienInfo_S = emptyResult \<rparr>]"
proof -
  have ok: "cacheOk initialFetchState" by (simp add: cacheOk_def initialFetchState_def)
  obtain st' where r: "processCSV_S demoRuntime demoSearch [demoRow, demoRow] =
     Some (Inr [\<lparr> original_S = demoRow, lienInfo_S = emptyResult \<rparr>,
                \<lparr> original_S = demoRow, lienInfo_S = emptyResult \<rparr>], st')"
    using processCSV_S_demo by (simp add: demoFormatted_def)
  note T = statewide_summary_always_empty
         [of initialFetchState demoSearch "JStr ''ANDERSON COUNTY''" "JStr ''CITY VS JOHN DOE''"
             JUndefined demoRuntime "[demoRow, demoRow]"]
  from T ok getTexasFileData_S_demo
  have b: "extractLienInfo_S demoRuntime (orElse (getProp demoFormatted ''records'') (JArr [])) =
      Inr emptyResult" by blast
  from T r have c: "fst (the (processCSV_S demoRuntime demoSearch [demoRow, demoRow])) =
     Inr [\<lparr> original_S = demoRow, lienInfo_S = emptyResult \<rparr>,
          \<lparr> original_S = demoRow, lienInfo_S = emptyResult \<rparr>]" by simp
  from ok getTexasFileData_S_demo demoFormatted_lien b c show ?thesis by blast
qed

section \<open>Retries\<close>

lemma fetchWithRetry_2:
  "fetchWithRetry api 2 st =
     (case api (calls st) of
        Inr v \<Rightarrow> (Inr v, st\<lparr> calls := Suc (calls st) \<rparr>)
      | Inl e \<Rightarrow> (Inl e, st\<lparr> calls := Suc (calls st) \<rparr>))"
  by (subst fetchWithRetry.simps) (simp add: maxRetries_def split: sum.splits)

lemma fetchWithRetry_1:
  "fetchWithRetry api (Suc 0) st =
     (case api (calls st) of
        Inr v \<Rightarrow> (Inr v, st\<lparr> calls := Suc (calls st) \<rparr>)
      | Inl e \<Rightarrow> fetchWithRetry api 2 (st\<lparr> calls := Suc (calls st), slept := slept st @ [4000] \<rparr>))"
  by (subst fetchWithRetry.simps) (simp add: maxRetries_def numeral_2_eq_2 split: sum.splits)

lemma fetchWithRetry_0:
  "fetchWithRetry api 0 st =
     (case api (calls st) of
        Inr v \<Rightarrow> (Inr v, st\<lparr> calls := Suc (calls st) \<rparr>)
      | Inl e \<Rightarrow> fetchWithRetry api (Suc 0) (st\<lparr> calls := Suc (calls st), slept := slept st @ [2000] \<rparr>))"
  by (subst fetchWithRetry.simps) (simp add: maxRetries_def split: sum.splits)

lemmas fetchWithRetry_unfold = fetchWithRetry_0 fetchWithRetry_1 fetchWithRetry_2

lemma fetchWithRetry_calls:
  "calls st < calls (snd (fetchWithRetry api 0 st)) \<and> calls (snd (fetchWithRetry api 0 st)) \<le> calls st + 3"
  by (simp add: fetchWithRetry_unfold split: sum.splits)

lemma processRow_calls:
  "calls st < calls (snd (processRow rt api row st)) \<and> calls (snd (processRow rt api row st)) \<le> calls st + 3"
  using fetchWithRetry_calls [of st api]
  by (auto simp: processRow_def split: prod.splits sum.splits)

lemma processRow_original: "original (fst (processRow rt api row st)) = row"
  by (auto simp: processRow_def split: prod.splits sum.splits)

lemma processRows_emits:
  "map original (fst (processRows rt api rows st)) = rows \<and>
   calls (snd (processRows rt api rows st)) \<le> calls st + 3 * length rows"
proof (induction rows arbitrary: st)
  case Nil
  then show ?case by simp
next
  case (Cons row rows)
  obtain out st1 where p: "processRow rt api row st = (out, st1)" by (cases "processRow rt api row st")
  obtain outs st2 where q: "processRows rt api rows st1 = (outs, st2)"
    by (cases "processRows rt api rows st1")
  from processRow_original [of rt api row st] p have o: "original out = row" by simp
  from processRow_calls [of st rt api row] p have c: "calls st1 \<le> calls st + 3" by simp
  from Cons.IH [of st1] q have "map original outs = rows" "calls st2 \<le> calls st1 + 3 * length rows"
    by simp_all
  with o c p q show ?case by simp
qed

lemma processRow_three_failures:
  assumes "api (calls st) = Inl e0" "api (calls st + 1) = Inl e1" "api (calls st + 2) = Inl e2"
  shows "processRow rt api row st =
           (\<lparr> original = row, summary = None, error = Some (errMessage e2) \<rparr>,
            st\<lparr> calls := calls st + 3, slept := slept st @ [2000, 4000] \<rparr>)"
  using assms by (simp add: processRow_def fetchWithRetry_unfold)

lemma getTexasFileData_S_no_retry:
  assumes "map_of (responseCache fs) (c @ '':'' @ n @ '':'' @ toStr causeNumber) = None"
    and "server (attempts fs) = Inl e" and "errStatus e \<noteq> Some 429"
  shows "getTexasFileData_S server (JStr c) (JStr n) causeNumber fs =
           Some (JNull, fs\<lparr> attempts := Suc (attempts fs) \<rparr>)"
  using assms by (subst getTexasFileData_S.simps) (simp add: Let_def)

text \<open>
  Claim C5, for the script that retries. \<open>processCSV\<close> is a total function: for every
  behaviour of the clerk's site it writes one output row for every row it selected,
  in order, after at most three calls of \<^verbatim>\<open>getTexasFileData\<close> per row (one attempt
  and \<open>maxRetries = 2\<close> retries). A row whose three calls all throw is written with no
  summary and with the message of the last exception in its \<^verbatim>\<open>error\<close> column,
  after delays of 2000 ms and 4000 ms (\<^verbatim>\<open>1000 * 2 ** attempt\<close>), and the run goes
  on with the next row. In the statewide script a failure with a status other than
  429 is not retried: the fetch returns \<^verbatim>\<open>null\<close> after that one attempt.
\<close>

theorem bounded_retry_then_error:
  "map original (fst (processRows rt api rows st)) = rows \<and>
   calls (snd (processRows rt api rows st)) \<le> calls st + 3 * length rows \<and>
   map original (fst (processCSV rt limit api input)) = selectRows limit input [] \<and>
   calls (snd (processCSV rt limit api input)) \<le> 3 * length (selectRows limit input []) \<and>
   calls (snd (processRow rt api row st)) \<le> calls st + 3 \<and>
   (api (calls st) = Inl e0 \<and> api (calls st + 1) = Inl e1 \<and> api (calls st + 2) = Inl e2 \<longrightarrow>
      processRow rt api row st =
        (\<lparr> original = row, summary = None, error = Some (errMessage e2) \<rparr>,
         st\<lparr> calls := calls st + 3, slept := slept st @ [2000, 4000] \<rparr>)) \<and>
   (map_of (responseCache fs) (c @ '':'' @ n @ '':'' @ toStr causeNumber) = None \<and>
    api (attempts fs) = Inl e \<and> errStatus e \<noteq> Some 429 \<longrightarrow>
      getTexasFileData_S api (JStr c) (JStr n) causeNumber fs =
        Some (JNull, fs\<lparr> attempts := Suc (attempts fs) \<rparr>))"
proof -
  have "map original (fst (processCSV rt limit api input)) = selectRows limit input [] \<and>
        calls (snd (processCSV rt limit api input)) \<le> 3 * length (selectRows limit input [])"
    using processRows_emits [of rt api "selectRows limit input []" "\<lparr> calls = 0, slept = [] \<rparr>"]
    by (simp add: processCSV_def)
  with processRows_emits [of rt api rows st] processRow_calls [of st rt api row]
    processRow_three_failures [of api st e0 e1 e2 rt row]
    getTexasFileData_S_no_retry [of fs c n causeNumber api e]
  show ?thesis by blast
qed

text \<open>
  The theorem on a site that answers 429 to every call, for an input file of three
  rows one of which has no county, and on a site that answers 500 to the statewide
  script.
\<close>

theorem bounded_retry_then_error_witness:
  "always429 (calls initialRunState) = Inl (AxiosError (Some 429) ''Request failed with status code 429'') \<and>
   always429 (calls initialRunState + 1) = Inl (AxiosError (Some 429) ''Request failed with status code 429'') \<and>
   always429 (calls initialRunState + 2) = Inl (AxiosError (Some 429) ''Request failed with status code 429'') \<and>
   processRow demoRuntime always429 demoRow initialRunState =
     (\<lparr> original = demoRow, summary = None, error = Some ''Request failed with status code 429'' \<rparr>,
      \<lparr> calls = 3, slept = [2000, 4000] \<rparr>) \<and>
   length (selectRows None demoRows []) = 2 \<and>
   map original (fst (processCSV demoRuntime None always429 demoRows)) = selectRows None demoRows [] \<and>
   map error (fst (processCSV demoRuntime None always429 demoRows)) =
     [Some ''Request failed with status code 429'', Some ''Request failed with status code 429''] \<and>
   snd (processCSV demoRuntime None always429 demoRows) =
     \<lparr> calls = 6, slept = [2000, 4000, 2000, 4000] \<rparr> \<and>
   serverError (attempts initialFetchState) =
     Inl (AxiosError (Some 500) ''Request failed with status code 500'') \<and>
   getTexasFileData_S serverError (JStr ''ANDERSON COUNTY'') (JStr ''CITY VS JOHN DOE'') JUndefined
     initialFetchState = Some (JNull, \<lparr> responseCache = [], attempts = 1, waits = [] \<rparr>)"
proof -
  let ?e = "AxiosError (Some 429) ''Request failed with status code 429''"
  let ?f = "AxiosError (Some 500) ''Request failed with status code 500''"
  have a: "always429 (calls initialRunState) = Inl ?e" "always429 (calls initialRunState + 1) = Inl ?e"
    "always429 (calls initialRunState + 2) = Inl ?e"
    by (simp_all add: always429_def)
  note T = bounded_retry_then_error
    [where rt = demoRuntime and api = always429 and st = initialRunState and row = demoRow
       and ?e0.0 = ?e and ?e1.0 = ?e and ?e2.0 = ?e and limit = None and input = demoRows]
  from T a have r: "processRow demoRuntime always429 demoRow initialRunState =
     (\<lparr> original = demoRow, summary = None, error = Some ''Request failed with status code 429'' \<rparr>,
      \<lparr> calls = 3, slept = [2000, 4000] \<rparr>)"
    by (simp add: initialRunState_def)
  from T have o: "map original (fst (processCSV demoRuntime None always429 demoRows)) =
     selectRows None demoRows []" by blast
  have l: "length (selectRows None demoRows []) = 2" by code_simp
  have e: "map error (fst (processCSV demoRuntime None always429 demoRows)) =
     [Some ''Request failed with status code 429'', Some ''Request failed with status code 429'']"
    by code_simp
  have s: "snd (processCSV demoRuntime None always429 demoRows) =
     \<lparr> calls = 6, slept = [2000, 4000, 2000, 4000] \<rparr>"
    by code_simp
  have f: "serverError (attempts initialFetchState) = Inl ?f" by (simp add: serverError_def)
  have m: "map_of (responseCache initialFetchState)
             (''ANDERSON COUNTY'' @ '':'' @ ''CITY VS JOHN DOE'' @ '':'' @ toStr JUndefined) = None"
    by (simp add: initialFetchState_def)
  have n: "errStatus ?f \<noteq> Some 429" by simp
  note U = bounded_retry_then_error
    [where api = serverError and fs = initialFetchState and c = "''ANDERSON COUNTY''"
       and n = "''CITY VS JOHN DOE''" and causeNumber = JUndefined and e = ?f]
  from U f m n have g: "getTexasFileData_S serverError (JStr ''ANDERSON COUNTY'')
      (JStr ''CITY VS JOHN DOE'') JUndefined initialFetchState =
      Some (JNull, \<lparr> responseCache = [], attempts = 1, waits = [] \<rparr>)"
    by (simp add: initialFetchState_def)
  from a r l o e s f g show ?thesis by blast
qed

lemma always429_never_returns:
  assumes run: "getTexasFileData_S server cty name causeNumber st = Some y"
  shows "\<not> (server = always429 \<and> responseCache st = [] \<and> (\<exists>c n. cty = JStr c \<and> name = JStr n))"
proof (rule getTexasFileData_S.raw_induct
    [where P = "\<lambda>server cty name causeNumber st y.
       \<not> (server = always429 \<and> responseCache st = [] \<and> (\<exists>c n. cty = JStr c \<and> name = JStr n))",
     OF _ run], goal_cases)
  case (1 f server cty name causeNumber st y)
  note IH = 1(1) and eq = 1(2)
  show ?case
  proof
    assume h: "server = always429 \<and> responseCache st = [] \<and> (\<exists>c n. cty = JStr c \<and> name = JStr n)"
    then obtain c n where cn: "cty = JStr c" "name = JStr n" by blast
    let ?st' = "st\<lparr> attempts := Suc (attempts st), waits := waits st @ [REQUEST_DELAY_MS * 2] \<rparr>"
    from eq h cn have "f server cty name causeNumber ?st' = Some y"
      by (simp add: Let_def always429_def)
    from IH [OF this] h show False by auto
  qed
qed

text \<open>
  Claim C5 as stated fails for the statewide script. On a site that answers 429 to
  every attempt \<open>getTexasFileData_S\<close> never returns, and so neither does the run;
  on a site that answers 500 the row is written after a single attempt, with the
  default summary and no \<^verbatim>\<open>error\<close> column (the output row has none).
\<close>

theorem bounded_retry_counterexample:
  "getTexasFileData_S always429 (JStr ''ANDERSON COUNTY'') (JStr ''CITY VS JOHN DOE'') JUndefined
     initialFetchState = None \<and>
   processCSV_S demoRuntime always429 [demoRow] = None \<and>
   processCSV_S demoRuntime serverError [demoRow] =
     Some (Inr [\<lparr> original_S = demoRow, lienInfo_S = emptyResult \<rparr>],
           \<lparr> responseCache = [], attempts = 1, waits = [2000] \<rparr>)"
proof -
  have n: "getTexasFileData_S always429 (JStr ''ANDERSON COUNTY'') (JStr ''CITY VS JOHN DOE'') cn
     initialFetchState = None" for cn
  proof (cases "getTexasFileData_S always429 (JStr ''ANDERSON COUNTY'') (JStr ''CITY VS JOHN DOE'') cn
     initialFetchState")
    case None
    then show ?thesis .
  next
    case (Some y)
    from always429_never_returns [OF this] show ?thesis by (simp add: initialFetchState_def)
  qed
  have c: "column demoRow ''county'' = JStr ''ANDERSON COUNTY''"
    "column demoRow ''case_style'' = JStr ''CITY VS JOHN DOE''"
    by (simp_all add: column_def demoRow_def)
  have p: "processCSV_S demoRuntime always429 [demoRow] = None"
    using n [of "column demoRow ''cause_number''"]
    by (simp add: processCSV_S_def c initialFetchState_def)
  have s: "processCSV_S demoRuntime serverError [demoRow] =
     Some (Inr [\<lparr> original_S = demoRow, lienInfo_S = emptyResult \<rparr>],
           \<lparr> responseCache = [], attempts = 1, waits = [2000] \<rparr>)"
    by code_simp
  from n [of JUndefined] p s show ?thesis by blast
qed

end
